theory Spec2Isabelle
  imports Main "HOL-Library.Word" "HOL-Library.Char_ord" "HOL-Library.List_Lexorder"
    "HOL-Library.Multiset"
begin

unbundle bit_operations_syntax

section \<open>The instruction-format model\<close>

text \<open>
  The generators under \<^verbatim>\<open>scripts/go/geninsndata\<close> (Go assembler dialect),
  \<^verbatim>\<open>scripts/go/geninstformats\<close> (its older sibling) and the QEMU TCG generator
  (second program of the same file) share one data model, which lives in the package
  \<^verbatim>\<open>common\<close>. Its types are written here as the generators use them: an argument
  kind is one of five constants, a slot is an offset and a width, an argument is a kind
  with its slots (most significant fragment first), a format is a list of arguments, and
  an instruction description carries the opcode word, the mnemonic, the format and the
  attribute map.
\<close>

datatype ArgKind =
  ArgKindIntReg | ArgKindFPReg | ArgKindFCCReg | ArgKindSignedImm | ArgKindUnsignedImm

record Slot =
  Offset :: nat
  Width :: nat

record Arg =
  Kind :: ArgKind
  Slots :: "Slot list"

record InsnFormat =
  Args :: "Arg list"

record InsnDescription =
  Word :: "32 word"
  Mnemonic :: string
  Format :: InsnFormat
  Attribs :: "string \<rightharpoonup> string"

text \<open>Modelled from the spec: \<^verbatim>\<open>Arg.TotalWidth\<close> of package common, the total
  logical width of an argument, is the sum of its slot widths.\<close>

definition TotalWidth :: "Arg \<Rightarrow> nat" where
  "TotalWidth a = sum_list (map Width (Slots a))"

text \<open>Modelled from the spec: \<^verbatim>\<open>ArgKind.IsImm\<close> of package common holds of the two
  immediate kinds.\<close>

definition IsImm :: "ArgKind \<Rightarrow> bool" where
  "IsImm k = (k = ArgKindSignedImm \<or> k = ArgKindUnsignedImm)"

text \<open>A \<^verbatim>\<open>panic\<close> of a generator aborts the run; it is the \<open>Inl\<close> of a result.\<close>

datatype error = Panic string

text \<open>
  What the generators take from outside this repository part: the canonical names of
  formats and arguments (\<^verbatim>\<open>CanonicalRepr\<close> of package common), the revision
  identifier, \<^verbatim>\<open>sort.Slice\<close> on the descriptions and on the formats, and the
  formatters run on the finished buffer. They are parameters of the model.
\<close>

record Externals =
  FormatCanonicalRepr :: "InsnFormat \<Rightarrow> string"
  ArgCanonicalRepr :: "Arg \<Rightarrow> string"
  MustGetGitCommitHash :: string
  sortSliceDescs :: "InsnDescription list \<Rightarrow> InsnDescription list"
  sortSliceFormats :: "InsnFormat list \<Rightarrow> InsnFormat list"
  formatSource :: "string \<Rightarrow> error + string"
  clangFormat :: "string \<Rightarrow> error + string"

text \<open>\<^verbatim>\<open>sort.Slice(xs, less)\<close> with \<open>less\<close> comparing a key: the result is a
  rearrangement of the input in which the keys ascend. Go's sort is not stable, so nothing
  more is assumed of it.\<close>

definition sorts_by :: "('a \<Rightarrow> 'k::linorder) \<Rightarrow> ('a list \<Rightarrow> 'a list) \<Rightarrow> bool" where
  "sorts_by key srt = (\<forall>xs. mset (srt xs) = mset xs \<and> sorted (map key (srt xs)))"

text \<open>
  A Go map is kept as the list of its entries, one per key. A \<^verbatim>\<open>range\<close> over a map
  visits the entries in an order the runtime chooses anew each time: the order is a
  parameter \<open>rng\<close>, of which only \<open>range_order\<close> is known.
\<close>

definition range_order :: "('a list \<Rightarrow> 'a list) \<Rightarrow> bool" where
  "range_order rng = (\<forall>m. mset (rng m) = mset m)"

section \<open>Go library functions used by the generators\<close>

definition digitChar :: "nat \<Rightarrow> char" where
  "digitChar d = (''0123456789abcdef'' @ replicate d CHR ''?'') ! d"

text \<open>\<^verbatim>\<open>strconv.FormatUint(n, base)\<close>, also behind the verbs \<^verbatim>\<open>%d\<close> and
  \<^verbatim>\<open>%x\<close> on a value that is not negative.\<close>

function formatUint :: "nat \<Rightarrow> nat \<Rightarrow> string" where
  "formatUint base n =
     (if base < 2 \<or> n < base then [digitChar n]
      else formatUint base (n div base) @ [digitChar (n mod base)])"
  by pat_completeness auto
termination
  by (relation "measure snd") auto

declare formatUint.simps [simp del]

definition itoa :: "nat \<Rightarrow> string" where
  "itoa n = formatUint 10 n"

definition hex :: "nat \<Rightarrow> string" where
  "hex n = formatUint 16 n"

text \<open>The verb \<^verbatim>\<open>%08x\<close> on a \<^verbatim>\<open>uint32\<close>.\<close>

definition hex08 :: "32 word \<Rightarrow> string" where
  "hex08 w = (let s = hex (unat w) in replicate (8 - length s) CHR ''0'' @ s)"

text \<open>\<^verbatim>\<open>strings.ToLower\<close> and \<^verbatim>\<open>strings.ToUpper\<close>, on ASCII text.\<close>

definition toLowerChar :: "char \<Rightarrow> char" where
  "toLowerChar c =
     (case map_of (zip ''ABCDEFGHIJKLMNOPQRSTUVWXYZ'' ''abcdefghijklmnopqrstuvwxyz'') c of
        Some l \<Rightarrow> l
      | None \<Rightarrow> c)"

definition toUpperChar :: "char \<Rightarrow> char" where
  "toUpperChar c =
     (case map_of (zip ''abcdefghijklmnopqrstuvwxyz'' ''ABCDEFGHIJKLMNOPQRSTUVWXYZ'') c of
        Some u \<Rightarrow> u
      | None \<Rightarrow> c)"

definition ToLower :: "string \<Rightarrow> string" where
  "ToLower s = map toLowerChar s"

definition ToUpper :: "string \<Rightarrow> string" where
  "ToUpper s = map toUpperChar s"

text \<open>\<^verbatim>\<open>strings.ReplaceAll(s, old, new)\<close> for a one-character \<open>old\<close>.\<close>

definition ReplaceAll :: "string \<Rightarrow> char \<Rightarrow> string \<Rightarrow> string" where
  "ReplaceAll s old new = concat (map (\<lambda>c. if c = old then new else [c]) s)"

definition nl :: string where
  "nl = [CHR 0x0A]"

definition tab :: string where
  "tab = [CHR 0x09]"

definition dquote :: string where
  "dquote = [CHR 0x22]"

text \<open>The buffer of \<^verbatim>\<open>emitterCtx\<close>; \<^verbatim>\<open>emit\<close> appends the formatted text.\<close>

type_synonym emitterCtx = string

definition emit :: "string \<Rightarrow> emitterCtx \<Rightarrow> emitterCtx" where
  "emit s ectx = ectx @ s"

section \<open>Format catalog: \<^verbatim>\<open>gatherFormats\<close>\<close>

text \<open>
  The three programs hold the same \<^verbatim>\<open>gatherFormats\<close>. The loop body enters the
  format of a description under its canonical name unless the name is already a key;
  the result collects the values of the map in \<^verbatim>\<open>range\<close> order.
\<close>

definition formatsSet_insert ::
  "Externals \<Rightarrow> (string \<times> InsnFormat) list \<Rightarrow> InsnDescription \<Rightarrow> (string \<times> InsnFormat) list" where
  "formatsSet_insert X formatsSet d =
     (let canonicalFormatName = FormatCanonicalRepr X (Format d)
      in if map_of formatsSet canonicalFormatName = None
         then formatsSet @ [(canonicalFormatName, Format d)]
         else formatsSet)"

definition formatsSet_of :: "Externals \<Rightarrow> InsnDescription list \<Rightarrow> (string \<times> InsnFormat) list" where
  "formatsSet_of X descs = foldl (formatsSet_insert X) [] descs"

definition gatherFormats ::
  "Externals \<Rightarrow> ((string \<times> InsnFormat) list \<Rightarrow> (string \<times> InsnFormat) list)
     \<Rightarrow> InsnDescription list \<Rightarrow> InsnFormat list" where
  "gatherFormats X rng descs = map snd (rng (formatsSet_of X descs))"

section \<open>Slot combinations\<close>

definition slotD :: nat where "slotD = 0"
definition slotJ :: nat where "slotJ = 5"
definition slotK :: nat where "slotK = 10"
definition slotA :: nat where "slotA = 15"
definition slotM :: nat where "slotM = 16"

text \<open>The \<^verbatim>\<open>switch\<close> of \<^verbatim>\<open>slotCombinationForFmt\<close> on one offset.\<close>

definition slotRune :: "nat \<Rightarrow> error + char" where
  "slotRune s =
     (if s = slotD then Inr CHR ''D''
      else if s = slotJ then Inr CHR ''J''
      else if s = slotK then Inr CHR ''K''
      else if s = slotA then Inr CHR ''A''
      else if s = slotM then Inr CHR ''M''
      else Inl (Panic ''should never happen''))"

fun writeSlotRunes :: "nat list \<Rightarrow> string \<Rightarrow> error + string" where
  "writeSlotRunes [] sb = Inr sb"
| "writeSlotRunes (s # slots) sb =
     (case slotRune s of
        Inl e \<Rightarrow> Inl e
      | Inr c \<Rightarrow> writeSlotRunes slots (sb @ [c]))"

definition slotOffsets :: "InsnFormat \<Rightarrow> nat list" where
  "slotOffsets f = concat (map (\<lambda>a. map Offset (Slots a)) (Args f))"

definition slotCombinationForFmt :: "InsnFormat \<Rightarrow> error + string" where
  "slotCombinationForFmt f = writeSlotRunes (sort (slotOffsets f)) []"

definition slotOffsetFromRune :: "char \<Rightarrow> error + nat" where
  "slotOffsetFromRune s =
     (if s = CHR ''D'' \<or> s = CHR ''d'' then Inr slotD
      else if s = CHR ''J'' \<or> s = CHR ''j'' then Inr slotJ
      else if s = CHR ''K'' \<or> s = CHR ''k'' then Inr slotK
      else if s = CHR ''A'' \<or> s = CHR ''a'' then Inr slotA
      else if s = CHR ''M'' \<or> s = CHR ''m'' then Inr slotM
      else Inl (Panic ''should never happen''))"

text \<open>The set \<^verbatim>\<open>slotCombinationsSet\<close> is a map with empty values: the list of its
  keys. The loop skips the format without arguments.\<close>

fun slotCombinationsSet_of :: "InsnFormat list \<Rightarrow> string list \<Rightarrow> error + string list" where
  "slotCombinationsSet_of [] scset = Inr scset"
| "slotCombinationsSet_of (f # fmts) scset =
     (if length (Args f) = 0 then slotCombinationsSet_of fmts scset
      else case slotCombinationForFmt f of
             Inl e \<Rightarrow> Inl e
           | Inr sc \<Rightarrow> slotCombinationsSet_of fmts (if sc \<in> set scset then scset else scset @ [sc]))"

definition gatherDistinctSlotCombinations ::
  "(string list \<Rightarrow> string list) \<Rightarrow> InsnFormat list \<Rightarrow> error + string list" where
  "gatherDistinctSlotCombinations rng fmts =
     (case slotCombinationsSet_of fmts [] of
        Inl e \<Rightarrow> Inl e
      | Inr scset \<Rightarrow> Inr (sort (rng scset)))"

text \<open>The offsets that have a letter, and the combination codes of the formats with
  arguments in a list.\<close>

definition slotTags :: "nat set" where
  "slotTags = {slotD, slotJ, slotK, slotA, slotM}"

definition codesOf :: "InsnFormat list \<Rightarrow> string set" where
  "codesOf fmts = {sc. \<exists>g \<in> set fmts. Args g \<noteq> [] \<and> slotCombinationForFmt g = Inr sc}"

section \<open>Validators (Go dialects)\<close>

text \<open>
  The validator emitted for a format is a chain of statements
  \<^verbatim>\<open>if err := want...(...); err != nil { return err }\<close>, one per argument, closed by
  \<^verbatim>\<open>return nil\<close>. A \<open>wantCall\<close> is the call of one such statement: the \<^verbatim>\<open>switch\<close>
  on the argument's kind chooses the function, and an immediate passes its total width.
\<close>

datatype wantCall =
  WantIntReg string
| WantFPReg string
| WantFCCReg string
| WantSignedImm string nat
| WantUnsignedImm string nat

definition wantCallForArg :: "Arg \<Rightarrow> string \<Rightarrow> wantCall" where
  "wantCallForArg a argParamName =
     (case Kind a of
        ArgKindIntReg \<Rightarrow> WantIntReg argParamName
      | ArgKindFPReg \<Rightarrow> WantFPReg argParamName
      | ArgKindFCCReg \<Rightarrow> WantFCCReg argParamName
      | ArgKindSignedImm \<Rightarrow> WantSignedImm argParamName (TotalWidth a)
      | ArgKindUnsignedImm \<Rightarrow> WantUnsignedImm argParamName (TotalWidth a))"

text \<open>The text of the call in geninsndata, which passes \<^verbatim>\<open>insn.as\<close> first, and in
  geninstformats.\<close>

fun renderWantCall_insndata :: "wantCall \<Rightarrow> string" where
  "renderWantCall_insndata (WantIntReg p) = ''wantIntReg(insn.as, '' @ p @ '')''"
| "renderWantCall_insndata (WantFPReg p) = ''wantFPReg(insn.as, '' @ p @ '')''"
| "renderWantCall_insndata (WantFCCReg p) = ''wantFCCReg(insn.as, '' @ p @ '')''"
| "renderWantCall_insndata (WantSignedImm p w) =
     ''wantSignedImm(insn.as, '' @ p @ '', '' @ itoa w @ '')''"
| "renderWantCall_insndata (WantUnsignedImm p w) =
     ''wantUnsignedImm(insn.as, '' @ p @ '', '' @ itoa w @ '')''"

fun renderWantCall_instformats :: "wantCall \<Rightarrow> string" where
  "renderWantCall_instformats (WantIntReg p) = ''wantIntReg('' @ p @ '')''"
| "renderWantCall_instformats (WantFPReg p) = ''wantFPReg('' @ p @ '')''"
| "renderWantCall_instformats (WantFCCReg p) = ''wantFCCReg('' @ p @ '')''"
| "renderWantCall_instformats (WantSignedImm p w) =
     ''wantSignedImm('' @ p @ '', '' @ itoa w @ '')''"
| "renderWantCall_instformats (WantUnsignedImm p w) =
     ''wantUnsignedImm('' @ p @ '', '' @ itoa w @ '')''"

text \<open>geninsndata: the field of \<^verbatim>\<open>instruction\<close> that holds a register argument.
  Indexing \<^verbatim>\<open>a.Slots[0]\<close> panics on an argument without slots.\<close>

definition insnFieldNameForRegArg :: "Arg \<Rightarrow> error + string" where
  "insnFieldNameForRegArg a =
     (case Slots a of
        [] \<Rightarrow> Inl (Panic ''index out of range'')
      | s # rest \<Rightarrow>
          if Offset s = slotD then Inr ''rd''
          else if Offset s = slotJ then Inr ''rj''
          else if Offset s = slotK then Inr ''rk''
          else if Offset s = slotA then Inr ''ra''
          else Inl (Panic ''should never happen''))"

fun fieldNamesForArgs_from :: "nat \<Rightarrow> Arg list \<Rightarrow> error + string list" where
  "fieldNamesForArgs_from immIdx [] = Inr []"
| "fieldNamesForArgs_from immIdx (a # args) =
     (if IsImm (Kind a) then
        (case fieldNamesForArgs_from (immIdx + 1) args of
           Inl e \<Rightarrow> Inl e
         | Inr names \<Rightarrow> Inr ((''imm'' @ itoa (immIdx + 1)) # names))
      else
        (case insnFieldNameForRegArg a of
           Inl e \<Rightarrow> Inl e
         | Inr n \<Rightarrow>
             (case fieldNamesForArgs_from immIdx args of
                Inl e \<Rightarrow> Inl e
              | Inr names \<Rightarrow> Inr (n # names))))"

definition fieldNamesForArgs :: "Arg list \<Rightarrow> error + string list" where
  "fieldNamesForArgs args = fieldNamesForArgs_from 0 args"

text \<open>The calls of the validator of a format, in the order of its statements.\<close>

definition validatorCalls_insndata :: "InsnFormat \<Rightarrow> error + wantCall list" where
  "validatorCalls_insndata f =
     (case fieldNamesForArgs (Args f) of
        Inl e \<Rightarrow> Inl e
      | Inr argFieldNames \<Rightarrow>
          Inr (map (\<lambda>(a, n). wantCallForArg a (''insn.'' @ n)) (zip (Args f) argFieldNames)))"

definition validatorCalls_instformats :: "Externals \<Rightarrow> InsnFormat \<Rightarrow> wantCall list" where
  "validatorCalls_instformats X f =
     map (\<lambda>a. wantCallForArg a (ToLower (ArgCanonicalRepr X a))) (Args f)"

definition emitCheck :: "string \<Rightarrow> emitterCtx \<Rightarrow> emitterCtx" where
  "emitCheck call ectx =
     emit (''; err != nil {'' @ nl @ tab @ tab @ ''return err'' @ nl @ tab @ ''}'' @ nl)
       (emit call (emit (tab @ ''if err := '') ectx))"

text \<open>The text of one statement of a validator.\<close>

definition checkStmt :: "string \<Rightarrow> string" where
  "checkStmt call =
     tab @ ''if err := '' @ call @ ''; err != nil {'' @ nl @ tab @ tab @ ''return err'' @ nl
       @ tab @ ''}'' @ nl"

definition emitValidatorForFormat_insndata ::
  "Externals \<Rightarrow> InsnFormat \<Rightarrow> emitterCtx \<Rightarrow> error + emitterCtx" where
  "emitValidatorForFormat_insndata X f ectx =
     (let formatName = FormatCanonicalRepr X f;
          funcName = ''validate'' @ formatName
      in case validatorCalls_insndata f of
           Inl e \<Rightarrow> Inl e
         | Inr calls \<Rightarrow>
             (let ectx = emit (''func '' @ funcName @ ''(insn *instruction) error {'' @ nl) ectx;
                  ectx = fold (\<lambda>c. emitCheck (renderWantCall_insndata c)) calls ectx
              in Inr (emit (tab @ ''return nil'' @ nl @ ''}'' @ nl @ nl) ectx)))"

fun emitParams_instformats :: "nat \<Rightarrow> string list \<Rightarrow> emitterCtx \<Rightarrow> emitterCtx" where
  "emitParams_instformats i [] ectx = ectx"
| "emitParams_instformats i (p # ps) ectx =
     emitParams_instformats (i + 1) ps
       (emit ((if i > 0 then '', '' else '''') @ p @ '' uint32'') ectx)"

definition emitValidatorForFormat_instformats ::
  "Externals \<Rightarrow> InsnFormat \<Rightarrow> emitterCtx \<Rightarrow> emitterCtx" where
  "emitValidatorForFormat_instformats X f ectx =
     (let formatName = FormatCanonicalRepr X f;
          funcName = ''validate'' @ formatName;
          argNames = map (\<lambda>a. ToLower (ArgCanonicalRepr X a)) (Args f);
          ectx = emit (''func '' @ funcName @ ''('') ectx;
          ectx = emitParams_instformats 0 argNames ectx;
          ectx = emit ('') error {'' @ nl) ectx;
          ectx = fold (\<lambda>c. emitCheck (renderWantCall_instformats c))
                   (validatorCalls_instformats X f) ectx
      in emit (tab @ ''return nil'' @ nl @ ''}'' @ nl @ nl) ectx)"

text \<open>
  What the emitted validator does when it runs: the statements are tried in order, and
  the first call that returns an error makes the validator return it; after the last
  statement it returns \<^verbatim>\<open>nil\<close>. The functions \<^verbatim>\<open>wantIntReg\<close> ... \<^verbatim>\<open>wantUnsignedImm\<close>
  belong to the consumer of the generated file: \<open>want\<close> gives the outcome of a call on
  the instruction being validated (\<open>None\<close> for \<^verbatim>\<open>nil\<close>).
\<close>

fun runValidator :: "(wantCall \<Rightarrow> 'e option) \<Rightarrow> wantCall list \<Rightarrow> 'e option" where
  "runValidator want [] = None"
| "runValidator want (c # calls) =
     (case want c of
        Some err \<Rightarrow> Some err
      | None \<Rightarrow> runValidator want calls)"

section \<open>Slot expressions\<close>

text \<open>
  The encoders pass one expression per slot to a slot encoder. An expression names the
  variable of its argument, shifts it right by \<open>remainingBits\<close> when that is positive,
  and masks it when a mask is given: \<^verbatim>\<open>sk12\<close>, \<^verbatim>\<open>sk12 & 0xfff\<close>,
  \<^verbatim>\<open>(sd5k16 >> 16) & 0x1f\<close>.
\<close>

datatype slotExpr = SlotExpr string nat "nat option"

text \<open>The loop over \<^verbatim>\<open>a.Slots\<close> of an argument with several slots: \<open>remainingBits\<close>
  starts at the total width and drops by the width of each slot; the mask is
  \<^verbatim>\<open>(1 << s.Width) - 1\<close>. The result lists the assignments to \<^verbatim>\<open>slotExprs\<close>.\<close>

fun fragmentExprs :: "string \<Rightarrow> nat \<Rightarrow> Slot list \<Rightarrow> (nat \<times> slotExpr) list" where
  "fragmentExprs argVarName remainingBits [] = []"
| "fragmentExprs argVarName remainingBits (s # slots) =
     (let remainingBits = remainingBits - Width s;
          mask = 2 ^ Width s - 1
      in (Offset s, SlotExpr argVarName remainingBits (Some mask))
           # fragmentExprs argVarName remainingBits slots)"

text \<open>geninsndata, \<^verbatim>\<open>emitBigEncoderFn\<close>: an argument with one slot passes its variable
  as it is.\<close>

definition argSlotExprs_insndata :: "string \<Rightarrow> Arg \<Rightarrow> (nat \<times> slotExpr) list" where
  "argSlotExprs_insndata argVarName a =
     (case Slots a of
        [s] \<Rightarrow> [(Offset s, SlotExpr argVarName 0 None)]
      | slots \<Rightarrow> fragmentExprs argVarName (TotalWidth a) slots)"

text \<open>QEMU, \<^verbatim>\<open>emitFmtEncoderFn\<close>: a signed immediate with one slot is masked to its
  total width (``signed imms need masking to convert to unsigned slot value''), everything
  else with one slot is passed through.\<close>

definition argSlotExprs_qemu :: "string \<Rightarrow> Arg \<Rightarrow> (nat \<times> slotExpr) list" where
  "argSlotExprs_qemu argVarName a =
     (case Slots a of
        [s] \<Rightarrow>
          if Kind a = ArgKindSignedImm
          then (let mask = 2 ^ TotalWidth a - 1 in [(Offset s, SlotExpr argVarName 0 (Some mask))])
          else [(Offset s, SlotExpr argVarName 0 None)]
      | slots \<Rightarrow> fragmentExprs argVarName (TotalWidth a) slots)"

text \<open>The map \<^verbatim>\<open>slotExprs\<close> after the assignments, a later one replacing an earlier
  one at the same offset.\<close>

definition slotExprsMap :: "(nat \<times> slotExpr) list \<Rightarrow> (nat \<rightharpoonup> slotExpr)" where
  "slotExprsMap assignments = foldl (\<lambda>m (offset, e). m(offset \<mapsto> e)) Map.empty assignments"

text \<open>The loop \<^verbatim>\<open>for _, s := range sc\<close> that looks up the expression of each slot of
  the combination.\<close>

fun slotExprsForSc :: "string \<Rightarrow> (nat \<rightharpoonup> slotExpr) \<Rightarrow> error + slotExpr list" where
  "slotExprsForSc [] slotExprs = Inr []"
| "slotExprsForSc (s # sc) slotExprs =
     (case slotOffsetFromRune s of
        Inl e \<Rightarrow> Inl e
      | Inr offset \<Rightarrow>
          (case slotExprs offset of
             None \<Rightarrow> Inl (Panic ''should never happen'')
           | Some slotExpr \<Rightarrow>
               (case slotExprsForSc sc slotExprs of
                  Inl e \<Rightarrow> Inl e
                | Inr es \<Rightarrow> Inr (slotExpr # es))))"

fun renderSlotExpr_insndata :: "slotExpr \<Rightarrow> string" where
  "renderSlotExpr_insndata (SlotExpr v remainingBits maskOpt) =
     v @ (if remainingBits > 0 then ''>>'' @ itoa remainingBits else '''')
       @ (case maskOpt of None \<Rightarrow> '''' | Some m \<Rightarrow> ''&0x'' @ hex m)"

fun renderSlotExpr_qemu :: "slotExpr \<Rightarrow> string" where
  "renderSlotExpr_qemu (SlotExpr v remainingBits maskOpt) =
     (if remainingBits > 0 then ''('' @ v @ '' >> '' @ itoa remainingBits @ '')'' else v)
       @ (case maskOpt of None \<Rightarrow> '''' | Some m \<Rightarrow> '' & 0x'' @ hex m)"

text \<open>
  The value of an expression. Variables hold 32-bit values; \<open>isSigned\<close> tells which of
  them are declared \<^verbatim>\<open>int32_t\<close>, whose right shift is arithmetic, the others being
  \<^verbatim>\<open>uint32_t\<close> (C) or \<^verbatim>\<open>uint32\<close> (Go), whose right shift is logical. The value is
  passed to a \<^verbatim>\<open>uint32_t\<close> or \<^verbatim>\<open>uint32\<close> parameter of the slot encoder.
\<close>

fun evalSlotExpr :: "(string \<Rightarrow> bool) \<Rightarrow> (string \<Rightarrow> 32 word) \<Rightarrow> slotExpr \<Rightarrow> 32 word" where
  "evalSlotExpr isSigned env (SlotExpr v remainingBits maskOpt) =
     (let x = (if remainingBits > 0
               then (if isSigned v then signed_drop_bit remainingBits (env v)
                     else drop_bit remainingBits (env v))
               else env v)
      in case maskOpt of None \<Rightarrow> x | Some m \<Rightarrow> x AND word_of_nat m)"

section \<open>Slot encoders\<close>

text \<open>
  \<^verbatim>\<open>emitSlotEncoderFn\<close> writes, for a combination such as \<^verbatim>\<open>DJK\<close>, a function
  that returns \<^verbatim>\<open>bits | d | j<<5 | k<<10\<close>. \<open>slotEncoderFn\<close> is what that function
  computes on its arguments, the loop over the lower-cased combination being the loop
  that writes the terms.
\<close>

fun orSlots :: "(char \<times> 32 word) list \<Rightarrow> 32 word \<Rightarrow> error + 32 word" where
  "orSlots [] bits = Inr bits"
| "orSlots ((s, v) # rest) bits =
     (case slotOffsetFromRune s of
        Inl e \<Rightarrow> Inl e
      | Inr offset \<Rightarrow> orSlots rest (bits OR (if offset > 0 then push_bit offset v else v)))"

definition slotEncoderFn :: "string \<Rightarrow> 32 word \<Rightarrow> 32 word list \<Rightarrow> error + 32 word" where
  "slotEncoderFn sc bits args = orSlots (zip (ToLower sc) args) bits"

definition slotEncoderFnNameForSc_insndata :: "string \<Rightarrow> string" where
  "slotEncoderFnNameForSc_insndata sc =
     (let plural = (if length sc > 1 then ''s'' else '''')
      in ''encode'' @ sc @ ''Slot'' @ plural)"

fun emitSlotTerms_insndata :: "string \<Rightarrow> emitterCtx \<Rightarrow> error + emitterCtx" where
  "emitSlotTerms_insndata [] ectx = Inr ectx"
| "emitSlotTerms_insndata (s # scLower) ectx =
     (case slotOffsetFromRune s of
        Inl e \<Rightarrow> Inl e
      | Inr offset \<Rightarrow>
          (let ectx = emit ('' | '' @ [s]) ectx;
               ectx = (if offset > 0 then emit (''<<'' @ itoa offset) ectx else ectx)
           in emitSlotTerms_insndata scLower ectx))"

definition emitSlotEncoderFn_insndata :: "string \<Rightarrow> emitterCtx \<Rightarrow> error + emitterCtx" where
  "emitSlotEncoderFn_insndata sc ectx =
     (let funcName = slotEncoderFnNameForSc_insndata sc;
          scLower = ToLower sc;
          ectx = emit (''func '' @ funcName @ ''(bits uint32'') ectx;
          ectx = fold (\<lambda>s. emit ('', '' @ [s] @ '' uint32'')) scLower ectx;
          ectx = emit ('') uint32 {'' @ nl) ectx;
          ectx = emit ''return bits'' ectx
      in case emitSlotTerms_insndata scLower ectx of
           Inl e \<Rightarrow> Inl e
         | Inr ectx \<Rightarrow> Inr (emit (nl @ ''}'' @ nl @ nl) ectx))"

fun emitSlotEncoders_insndata :: "string list \<Rightarrow> emitterCtx \<Rightarrow> error + emitterCtx" where
  "emitSlotEncoders_insndata [] ectx = Inr ectx"
| "emitSlotEncoders_insndata (sc # scs) ectx =
     (case emitSlotEncoderFn_insndata sc ectx of
        Inl e \<Rightarrow> Inl e
      | Inr ectx \<Rightarrow> emitSlotEncoders_insndata scs ectx)"

section \<open>geninsndata: format types, encodings table and the big encoder\<close>

definition emitInsnFormatTypes :: "Externals \<Rightarrow> InsnFormat list \<Rightarrow> emitterCtx \<Rightarrow> emitterCtx" where
  "emitInsnFormatTypes X fmts ectx =
     (let ectx = emit (''type insnFormat int'' @ nl @ nl @ ''const ('' @ nl) ectx;
          ectx = emit (tab @ ''insnFormatUnknown insnFormat = iota'' @ nl) ectx;
          ectx = fold (\<lambda>f. emit (tab @ ''insnFormat'' @ FormatCanonicalRepr X f @ nl)) fmts ectx
      in emit ('')'' @ nl @ nl) ectx)"

definition goOpcodeNameForInsn :: "string \<Rightarrow> string" where
  "goOpcodeNameForInsn mnemonic =
     (let tmp = ReplaceAll mnemonic CHR ''.'' '''';
          tmp = ReplaceAll tmp CHR ''_'' '''';
          tmp = ToUpper tmp
      in ''A'' @ tmp)"

text \<open>The table line of one description, the body of the loop of
  \<^verbatim>\<open>emitInsnEncodings\<close>.\<close>

definition encodingLine :: "Externals \<Rightarrow> InsnDescription \<Rightarrow> string" where
  "encodingLine X d =
     (let goOpcodeName = goOpcodeNameForInsn (Mnemonic d);
          formatName = ''insnFormat'' @ FormatCanonicalRepr X (Format d)
      in tab @ goOpcodeName @ '' & obj.AMask: {bits: 0x'' @ hex08 (Word d)
           @ '', fmt: '' @ formatName @ ''},'' @ nl)"

definition emitInsnEncodings :: "Externals \<Rightarrow> InsnDescription list \<Rightarrow> emitterCtx \<Rightarrow> emitterCtx" where
  "emitInsnEncodings X descs ectx =
     (let ectx = emit (''type encoding struct {'' @ nl) ectx;
          ectx = emit (tab @ ''bits uint32'' @ nl) ectx;
          ectx = emit (tab @ ''fmt  insnFormat'' @ nl) ectx;
          ectx = emit (''}'' @ nl @ nl) ectx;
          ectx = emit (''var encodings = [ALAST & obj.AMask]encoding{'' @ nl) ectx;
          ectx = fold (\<lambda>d. emit (encodingLine X d)) descs ectx
      in emit (''}'' @ nl) ectx)"

text \<open>The initialiser of the local variable of an argument.\<close>

definition argVarInit :: "Arg \<Rightarrow> string \<Rightarrow> string" where
  "argVarInit a fieldExpr =
     (case Kind a of
        ArgKindIntReg \<Rightarrow> ''regInt('' @ fieldExpr @ '')''
      | ArgKindFPReg \<Rightarrow> ''regFP('' @ fieldExpr @ '')''
      | ArgKindFCCReg \<Rightarrow> ''regFCC('' @ fieldExpr @ '')''
      | ArgKindSignedImm \<Rightarrow> ''uint32('' @ fieldExpr @ '')''
      | ArgKindUnsignedImm \<Rightarrow> ''uint32('' @ fieldExpr @ '')'')"

text \<open>The case of a format with arguments: the fields read into local variables, the
  slot combination whose encoder the \<^verbatim>\<open>return\<close> statement calls, and the
  expressions passed after \<^verbatim>\<open>enc.bits\<close>.\<close>

definition bigEncoderCase ::
  "Externals \<Rightarrow> InsnFormat \<Rightarrow> error + string list \<times> string \<times> slotExpr list" where
  "bigEncoderCase X f =
     (case fieldNamesForArgs (Args f) of
        Inl e \<Rightarrow> Inl e
      | Inr argFieldNames \<Rightarrow>
          (let argVarNames = map (\<lambda>a. ToLower (ArgCanonicalRepr X a)) (Args f);
               slotExprs = slotExprsMap
                 (concat (map (\<lambda>(argVarName, a). argSlotExprs_insndata argVarName a)
                            (zip argVarNames (Args f))))
           in case slotCombinationForFmt f of
                Inl e \<Rightarrow> Inl e
              | Inr sc \<Rightarrow>
                  (case slotExprsForSc sc slotExprs of
                     Inl e \<Rightarrow> Inl e
                   | Inr es \<Rightarrow> Inr (argFieldNames, sc, es))))"

definition emitBigEncoderCase :: "Externals \<Rightarrow> InsnFormat \<Rightarrow> emitterCtx \<Rightarrow> error + emitterCtx" where
  "emitBigEncoderCase X f ectx =
     (let formatName = FormatCanonicalRepr X f;
          ectx = emit (tab @ ''case insnFormat'' @ formatName @ '':'' @ nl) ectx
      in if length (Args f) = 0 then Inr (emit (tab @ tab @ ''return enc.bits, nil'' @ nl) ectx)
         else
           case bigEncoderCase X f of
             Inl e \<Rightarrow> Inl e
           | Inr (argFieldNames, sc, es) \<Rightarrow>
               (let argVarNames = map (\<lambda>a. ToLower (ArgCanonicalRepr X a)) (Args f);
                    ectx = fold (\<lambda>(a, varName, fieldName).
                                   emit (varName @ '' :='' @ argVarInit a (''enc.'' @ fieldName) @ nl))
                             (zip (Args f) (zip argVarNames argFieldNames)) ectx;
                    encFnName = slotEncoderFnNameForSc_insndata sc;
                    ectx = emit (''return '' @ encFnName @ ''(enc.bits'') ectx;
                    ectx = fold (\<lambda>e. emit ('', '' @ renderSlotExpr_insndata e)) es ectx
                in Inr (emit (''), nil'' @ nl) ectx)))"

fun emitBigEncoderCases :: "Externals \<Rightarrow> InsnFormat list \<Rightarrow> emitterCtx \<Rightarrow> error + emitterCtx" where
  "emitBigEncoderCases X [] ectx = Inr ectx"
| "emitBigEncoderCases X (f # fmts) ectx =
     (case emitBigEncoderCase X f ectx of
        Inl e \<Rightarrow> Inl e
      | Inr ectx \<Rightarrow> emitBigEncoderCases X fmts ectx)"

definition emitBigEncoderFn :: "Externals \<Rightarrow> InsnFormat list \<Rightarrow> emitterCtx \<Rightarrow> error + emitterCtx" where
  "emitBigEncoderFn X fmts ectx =
     (let ectx = emit (''func (insn *instruction) encode() (uint32, error) {'' @ nl
                       @ tab @ ''enc, err := encodingForAs(insn.as)'' @ nl
                       @ tab @ ''if enc == nil {'' @ nl
                       @ tab @ tab @ ''return 0, err'' @ nl
                       @ tab @ ''}'' @ nl
                       @ nl
                       @ tab @ ''switch enc.fmt {'' @ nl) ectx
      in case emitBigEncoderCases X fmts ectx of
           Inl e \<Rightarrow> Inl e
         | Inr ectx \<Rightarrow>
             (let ectx = emit (tab @ ''default:'' @ nl @ tab @ tab @ ''panic('' @ dquote
                               @ ''should never happen: unknown insn format'' @ dquote @ '')'' @ nl) ectx
              in Inr (emit (tab @ ''}'' @ nl @ ''}'' @ nl) ectx)))"

text \<open>
  What the case of a format computes: the local variables hold \<^verbatim>\<open>uint32\<close> values
  (\<open>env\<close>), of which the expressions are taken with logical shifts, and the slot encoder
  of the combination is applied to \<^verbatim>\<open>enc.bits\<close> and the values.
\<close>

definition runBigEncoderCase ::
  "Externals \<Rightarrow> InsnFormat \<Rightarrow> 32 word \<Rightarrow> (string \<Rightarrow> 32 word) \<Rightarrow> error + 32 word" where
  "runBigEncoderCase X f bits env =
     (if length (Args f) = 0 then Inr bits
      else case bigEncoderCase X f of
             Inl e \<Rightarrow> Inl e
           | Inr (argFieldNames, sc, es) \<Rightarrow>
               slotEncoderFn sc bits (map (evalSlotExpr (\<lambda>v. False) env) es))"

fun emitValidators_insndata :: "Externals \<Rightarrow> InsnFormat list \<Rightarrow> emitterCtx \<Rightarrow> error + emitterCtx" where
  "emitValidators_insndata X [] ectx = Inr ectx"
| "emitValidators_insndata X (f # fmts) ectx =
     (case emitValidatorForFormat_insndata X f ectx of
        Inl e \<Rightarrow> Inl e
      | Inr ectx \<Rightarrow> emitValidators_insndata X fmts ectx)"

definition main_insndata ::
  "Externals \<Rightarrow> ((string \<times> InsnFormat) list \<Rightarrow> (string \<times> InsnFormat) list)
     \<Rightarrow> (string list \<Rightarrow> string list) \<Rightarrow> InsnDescription list \<Rightarrow> error + string" where
  "main_insndata X rngFormats rngScs descs =
     (let formats = gatherFormats X rngFormats descs
      in case gatherDistinctSlotCombinations rngScs formats of
           Inl e \<Rightarrow> Inl e
         | Inr scs \<Rightarrow>
             (let descs = sortSliceDescs X descs;
                  formats = sortSliceFormats X formats;
                  ectx = [];
                  ectx = emit (''// Code generated by loongson-community/loongarch-opcodes geninsndata; DO NOT EDIT.''
                               @ nl @ nl) ectx;
                  ectx = emit (''package loong'' @ nl @ nl) ectx;
                  ectx = emit (''import '' @ dquote @ ''cmd/internal/obj'' @ dquote @ nl @ nl) ectx;
                  ectx = emitInsnFormatTypes X formats ectx
              in case emitValidators_insndata X formats ectx of
                   Inl e \<Rightarrow> Inl e
                 | Inr ectx \<Rightarrow>
                     (case emitSlotEncoders_insndata scs ectx of
                        Inl e \<Rightarrow> Inl e
                      | Inr ectx \<Rightarrow>
                          (let ectx = emitInsnEncodings X descs ectx
                           in case emitBigEncoderFn X formats ectx of
                                Inl e \<Rightarrow> Inl e
                              | Inr ectx \<Rightarrow> formatSource X ectx))))"

section \<open>geninstformats: the encoder of a format\<close>

text \<open>
  \<^verbatim>\<open>emitEncoderForFormat\<close> writes one statement \<^verbatim>\<open>bits |= ...\<close> per slot: for an
  argument with one slot the variable shifted left by the slot's offset, for a fragment
  of an argument with several slots the variable shifted right and masked.
\<close>

datatype bitsOrStmt =
  OrShifted string nat
| OrFragment string nat nat

fun fragmentStmts :: "string \<Rightarrow> nat \<Rightarrow> Slot list \<Rightarrow> bitsOrStmt list" where
  "fragmentStmts argParamName remainingBits [] = []"
| "fragmentStmts argParamName remainingBits (s # slots) =
     (let remainingBits = remainingBits - Width s;
          mask = 2 ^ Width s - 1
      in OrFragment argParamName remainingBits mask
           # fragmentStmts argParamName remainingBits slots)"

definition argStmts :: "string \<Rightarrow> Arg \<Rightarrow> bitsOrStmt list" where
  "argStmts argParamName a =
     (case Slots a of
        [s] \<Rightarrow> [OrShifted argParamName (Offset s)]
      | slots \<Rightarrow> fragmentStmts argParamName (TotalWidth a) slots)"

fun renderBitsOrStmt :: "bitsOrStmt \<Rightarrow> string" where
  "renderBitsOrStmt (OrShifted p offset) =
     tab @ ''bits |= '' @ p @ (if offset \<noteq> 0 then '' << '' @ itoa offset else '''') @ nl"
| "renderBitsOrStmt (OrFragment p remainingBits m) =
     tab @ ''bits |= '' @ p @ (if remainingBits > 0 then '' >> '' @ itoa remainingBits else '''')
       @ '' & 0x'' @ hex m @ nl"

definition encoderStmts :: "Externals \<Rightarrow> InsnFormat \<Rightarrow> bitsOrStmt list" where
  "encoderStmts X f =
     concat (map (\<lambda>a. argStmts (ToLower (ArgCanonicalRepr X a)) a) (Args f))"

definition emitEncoderForFormat :: "Externals \<Rightarrow> InsnFormat \<Rightarrow> emitterCtx \<Rightarrow> emitterCtx" where
  "emitEncoderForFormat X f ectx =
     (let formatName = FormatCanonicalRepr X f;
          funcName = ''encode'' @ formatName;
          argNames = map (\<lambda>a. ToLower (ArgCanonicalRepr X a)) (Args f);
          ectx = emit (''func '' @ funcName @ ''(bits uint32'') ectx;
          ectx = fold (\<lambda>p. emit ('', '' @ p @ '' uint32'')) argNames ectx;
          ectx = emit ('') uint32 {'' @ nl) ectx;
          ectx = fold (\<lambda>st. emit (renderBitsOrStmt st)) (encoderStmts X f) ectx
      in emit (tab @ ''return bits'' @ nl @ ''}'' @ nl @ nl) ectx)"

text \<open>What the emitted function computes on \<^verbatim>\<open>uint32\<close> parameters.\<close>

fun runBitsOrStmt :: "(string \<Rightarrow> 32 word) \<Rightarrow> bitsOrStmt \<Rightarrow> 32 word \<Rightarrow> 32 word" where
  "runBitsOrStmt env (OrShifted p offset) bits =
     bits OR (if offset \<noteq> 0 then push_bit offset (env p) else env p)"
| "runBitsOrStmt env (OrFragment p remainingBits m) bits =
     bits OR ((if remainingBits > 0 then drop_bit remainingBits (env p) else env p)
              AND word_of_nat m)"

definition runEncoderForFormat ::
  "Externals \<Rightarrow> InsnFormat \<Rightarrow> 32 word \<Rightarrow> (string \<Rightarrow> 32 word) \<Rightarrow> 32 word" where
  "runEncoderForFormat X f bits env = fold (runBitsOrStmt env) (encoderStmts X f) bits"

section \<open>The QEMU TCG generator\<close>

definition attribUnused :: string where
  "attribUnused = ''__attribute__((unused))''"

definition backquote :: string where
  "backquote = [CHR 0x60]"

text \<open>The loop of \<^verbatim>\<open>filterUnusedInsns\<close>: a description without the key
  \<^verbatim>\<open>qemu\<close> in its attributes is skipped.\<close>

fun filterUnusedInsns :: "InsnDescription list \<Rightarrow> InsnDescription list" where
  "filterUnusedInsns [] = []"
| "filterUnusedInsns (d # descs) =
     (if Attribs d ''qemu'' = None then filterUnusedInsns descs
      else d # filterUnusedInsns descs)"

definition insnMnemonicToUpperCase :: "string \<Rightarrow> string" where
  "insnMnemonicToUpperCase x = ToUpper (ReplaceAll x CHR ''.'' ''_'')"

definition insnMnemonicToEnumVariantName :: "string \<Rightarrow> string" where
  "insnMnemonicToEnumVariantName x = ''OPC_'' @ insnMnemonicToUpperCase x"

definition emitOpcEnum :: "InsnDescription list \<Rightarrow> emitterCtx \<Rightarrow> emitterCtx" where
  "emitOpcEnum descs ectx =
     (let ectx = emit (nl @ ''typedef enum {'' @ nl) ectx;
          ectx = fold (\<lambda>d. emit (''    '' @ insnMnemonicToEnumVariantName (Mnemonic d)
                                   @ '' = 0x'' @ hex08 (Word d) @ '','' @ nl)) descs ectx
      in emit (''} LoongArchInsn;'' @ nl) ectx)"

definition insnFieldNameForRegArg_qemu :: "Externals \<Rightarrow> Arg \<Rightarrow> string" where
  "insnFieldNameForRegArg_qemu X a = ToLower (ArgCanonicalRepr X a)"

record fieldDesc =
  name :: string
  typ' :: string

definition fieldDescsForArgs :: "Externals \<Rightarrow> Arg list \<Rightarrow> fieldDesc list" where
  "fieldDescsForArgs X args =
     map (\<lambda>a. \<lparr> name = insnFieldNameForRegArg_qemu X a,
                typ' = (case Kind a of
                         ArgKindIntReg \<Rightarrow> ''TCGReg''
                       | ArgKindFPReg \<Rightarrow> ''TCGReg''
                       | ArgKindFCCReg \<Rightarrow> ''TCGReg''
                       | ArgKindSignedImm \<Rightarrow> ''int32_t''
                       | ArgKindUnsignedImm \<Rightarrow> ''uint32_t'') \<rparr>) args"

definition slotEncoderFnNameForSc_qemu :: "string \<Rightarrow> string" where
  "slotEncoderFnNameForSc_qemu sc =
     (let plural = (if length sc > 1 then ''s'' else '''')
      in ''encode_'' @ ToLower sc @ ''_slot'' @ plural)"

fun emitSlotTerms_qemu :: "string \<Rightarrow> emitterCtx \<Rightarrow> error + emitterCtx" where
  "emitSlotTerms_qemu [] ectx = Inr ectx"
| "emitSlotTerms_qemu (s # scLower) ectx =
     (case slotOffsetFromRune s of
        Inl e \<Rightarrow> Inl e
      | Inr offset \<Rightarrow>
          (let ectx = emit ('' | '' @ [s]) ectx;
               ectx = (if offset > 0 then emit ('' << '' @ itoa offset) ectx else ectx)
           in emitSlotTerms_qemu scLower ectx))"

definition emitSlotEncoderFn_qemu :: "string \<Rightarrow> emitterCtx \<Rightarrow> error + emitterCtx" where
  "emitSlotEncoderFn_qemu sc ectx =
     (let funcName = slotEncoderFnNameForSc_qemu sc;
          scLower = ToLower sc;
          ectx = emit (nl @ ''static int32_t '' @ attribUnused @ nl @ funcName
                       @ ''(LoongArchInsn opc'') ectx;
          ectx = fold (\<lambda>s. emit ('', uint32_t '' @ [s])) scLower ectx;
          ectx = emit ('')'' @ nl @ ''{'' @ nl) ectx;
          ectx = emit ''    return opc'' ectx
      in case emitSlotTerms_qemu scLower ectx of
           Inl e \<Rightarrow> Inl e
         | Inr ectx \<Rightarrow> Inr (emit ('';'' @ nl @ ''}'' @ nl) ectx))"

fun emitSlotEncoders_qemu :: "string list \<Rightarrow> emitterCtx \<Rightarrow> error + emitterCtx" where
  "emitSlotEncoders_qemu [] ectx = Inr ectx"
| "emitSlotEncoders_qemu (sc # scs) ectx =
     (case emitSlotEncoderFn_qemu sc ectx of
        Inl e \<Rightarrow> Inl e
      | Inr ectx \<Rightarrow> emitSlotEncoders_qemu scs ectx)"

definition fmtEncoderFnNameForInsnFormat :: "Externals \<Rightarrow> InsnFormat \<Rightarrow> string" where
  "fmtEncoderFnNameForInsnFormat X f = ''encode_'' @ ToLower (FormatCanonicalRepr X f) @ ''_insn''"

text \<open>
  The condition of the \<^verbatim>\<open>tcg_debug_assert\<close> written for an argument, one shape per
  branch of the \<^verbatim>\<open>switch\<close>: \<^verbatim>\<open>x >= 0 && x <= 0xMAX\<close> for a register,
  \<^verbatim>\<open>x >= -0xMIN && x <= 0xMAX\<close> for a signed immediate and \<^verbatim>\<open>x <= 0xMAX\<close> for an
  unsigned one.
\<close>

datatype assertion =
  AssertRegRange string nat
| AssertSignedRange string nat nat
| AssertUnsignedMax string nat

definition assertionForArg :: "Arg \<Rightarrow> string \<Rightarrow> assertion" where
  "assertionForArg a varName =
     (case Kind a of
        ArgKindIntReg \<Rightarrow> (let max = 2 ^ TotalWidth a - 1 in AssertRegRange varName max)
      | ArgKindFPReg \<Rightarrow> (let max = 2 ^ TotalWidth a - 1 in AssertRegRange varName max)
      | ArgKindFCCReg \<Rightarrow> (let max = 2 ^ TotalWidth a - 1 in AssertRegRange varName max)
      | ArgKindSignedImm \<Rightarrow>
          (let max = 2 ^ (TotalWidth a - 1) - 1;
               negativeMin = max + 1
           in AssertSignedRange varName negativeMin max)
      | ArgKindUnsignedImm \<Rightarrow> (let max = 2 ^ TotalWidth a - 1 in AssertUnsignedMax varName max))"

fun renderAssertion :: "assertion \<Rightarrow> string" where
  "renderAssertion (AssertRegRange v m) = v @ '' >= 0 && '' @ v @ '' <= 0x'' @ hex m"
| "renderAssertion (AssertSignedRange v negativeMin m) =
     v @ '' >= -0x'' @ hex negativeMin @ '' && '' @ v @ '' <= 0x'' @ hex m"
| "renderAssertion (AssertUnsignedMax v m) = v @ '' <= 0x'' @ hex m"

text \<open>
  Whether the condition holds. \<open>val\<close> gives the value of a parameter as an integer: of
  an \<^verbatim>\<open>int32_t\<close> the signed reading of its 32 bits, of a \<^verbatim>\<open>uint32_t\<close> the unsigned
  one. A hexadecimal literal below \<open>2 ^ 31\<close> has type \<^verbatim>\<open>int\<close>, and the comparison then
  is the comparison of the integers.
\<close>

fun assertionHolds :: "(string \<Rightarrow> int) \<Rightarrow> assertion \<Rightarrow> bool" where
  "assertionHolds val (AssertRegRange v m) = (val v \<ge> 0 \<and> val v \<le> int m)"
| "assertionHolds val (AssertSignedRange v negativeMin m) =
     (val v \<ge> - int negativeMin \<and> val v \<le> int m)"
| "assertionHolds val (AssertUnsignedMax v m) = (val v \<le> int m)"

definition paramValue :: "string \<Rightarrow> 32 word \<Rightarrow> int" where
  "paramValue ty w = (if ty = ''int32_t'' then sint w else uint w)"

text \<open>The call that ends the encoder of a format: the slot combination and the
  expressions passed after \<^verbatim>\<open>opc\<close>.\<close>

definition fmtEncoderCall :: "Externals \<Rightarrow> InsnFormat \<Rightarrow> error + string \<times> slotExpr list" where
  "fmtEncoderCall X f =
     (let argFieldDescs = fieldDescsForArgs X (Args f);
          slotExprs = slotExprsMap
            (concat (map (\<lambda>(fd, a). argSlotExprs_qemu (name fd) a) (zip argFieldDescs (Args f))))
      in case slotCombinationForFmt f of
           Inl e \<Rightarrow> Inl e
         | Inr sc \<Rightarrow>
             (case slotExprsForSc sc slotExprs of
                Inl e \<Rightarrow> Inl e
              | Inr es \<Rightarrow> Inr (sc, es)))"

definition fmtEncoderAsserts :: "Externals \<Rightarrow> InsnFormat \<Rightarrow> assertion list" where
  "fmtEncoderAsserts X f =
     map (\<lambda>(fd, a). assertionForArg a (name fd)) (zip (fieldDescsForArgs X (Args f)) (Args f))"

definition emitFmtEncoderFn :: "Externals \<Rightarrow> InsnFormat \<Rightarrow> emitterCtx \<Rightarrow> error + emitterCtx" where
  "emitFmtEncoderFn X f ectx =
     (if length (Args f) = 0 then Inr ectx
      else
        (let argFieldDescs = fieldDescsForArgs X (Args f);
             ectx = emit (nl @ ''static int32_t '' @ attribUnused @ nl
                          @ fmtEncoderFnNameForInsnFormat X f @ ''(LoongArchInsn opc'') ectx;
             ectx = fold (\<lambda>fd. emit ('', '' @ typ' fd @ '' '' @ name fd)) argFieldDescs ectx;
             ectx = emit ('')'' @ nl @ ''{'' @ nl) ectx;
             ectx = fold (\<lambda>c. emit (''    tcg_debug_assert('' @ renderAssertion c @ '');'' @ nl))
                      (fmtEncoderAsserts X f) ectx
         in case fmtEncoderCall X f of
              Inl e \<Rightarrow> Inl e
            | Inr (sc, es) \<Rightarrow>
                (let encFnName = slotEncoderFnNameForSc_qemu sc;
                     ectx = emit (''    return '' @ encFnName @ ''(opc'') ectx;
                     ectx = fold (\<lambda>e. emit ('', '' @ renderSlotExpr_qemu e)) es ectx
                 in Inr (emit ('');'' @ nl @ ''}'' @ nl) ectx))))"

fun emitFmtEncoderFns :: "Externals \<Rightarrow> InsnFormat list \<Rightarrow> emitterCtx \<Rightarrow> error + emitterCtx" where
  "emitFmtEncoderFns X [] ectx = Inr ectx"
| "emitFmtEncoderFns X (f # fmts) ectx =
     (case emitFmtEncoderFn X f ectx of
        Inl e \<Rightarrow> Inl e
      | Inr ectx \<Rightarrow> emitFmtEncoderFns X fmts ectx)"

text \<open>
  What the encoder of a format computes on the values of its parameters (\<open>env\<close>), when
  the assertions hold or are compiled out: the expressions are taken, with an arithmetic
  shift for the \<^verbatim>\<open>int32_t\<close> parameters, and the slot encoder is applied to \<^verbatim>\<open>opc\<close>
  and their values. \<open>fmtEncoderAccepts\<close> says that every assertion holds.
\<close>

definition signedParams :: "Externals \<Rightarrow> InsnFormat \<Rightarrow> string \<Rightarrow> bool" where
  "signedParams X f v = (\<exists>fd \<in> set (fieldDescsForArgs X (Args f)). name fd = v \<and> typ' fd = ''int32_t'')"

definition runFmtEncoderFn ::
  "Externals \<Rightarrow> InsnFormat \<Rightarrow> 32 word \<Rightarrow> (string \<Rightarrow> 32 word) \<Rightarrow> error + 32 word" where
  "runFmtEncoderFn X f opc env =
     (case fmtEncoderCall X f of
        Inl e \<Rightarrow> Inl e
      | Inr (sc, es) \<Rightarrow> slotEncoderFn sc opc (map (evalSlotExpr (signedParams X f) env) es))"

definition fmtEncoderAccepts :: "Externals \<Rightarrow> InsnFormat \<Rightarrow> (string \<Rightarrow> 32 word) \<Rightarrow> bool" where
  "fmtEncoderAccepts X f env =
     list_all (assertionHolds
                 (\<lambda>v. paramValue (if signedParams X f v then ''int32_t'' else ''uint32_t'') (env v)))
       (fmtEncoderAsserts X f)"

text \<open>The syntax example in the comment of an emitter, such as
  \<^verbatim>\<open>addi.d d, j, sk12\<close>.\<close>

fun insnSyntaxArgs :: "Externals \<Rightarrow> nat \<Rightarrow> Arg list \<Rightarrow> string" where
  "insnSyntaxArgs X i [] = ''''"
| "insnSyntaxArgs X i (a # args) =
     (if i = 0 then '' '' else '', '') @ ToLower (ArgCanonicalRepr X a)
       @ insnSyntaxArgs X (i + 1) args"

definition insnSyntaxDescForInsn :: "Externals \<Rightarrow> InsnDescription \<Rightarrow> string" where
  "insnSyntaxDescForInsn X d =
     (if length (Args (Format d)) = 0 then Mnemonic d
      else Mnemonic d @ insnSyntaxArgs X 0 (Args (Format d)))"

definition emitTCGEmitterForInsn :: "Externals \<Rightarrow> InsnDescription \<Rightarrow> emitterCtx \<Rightarrow> emitterCtx" where
  "emitTCGEmitterForInsn X d ectx =
     (let opc = insnMnemonicToEnumVariantName (Mnemonic d);
          opcLower = ToLower opc;
          argFieldDescs = fieldDescsForArgs X (Args (Format d));
          ectx = emit (nl @ ''/* Emits the '' @ backquote @ insnSyntaxDescForInsn X d @ backquote
                       @ '' instruction.  */'' @ nl) ectx;
          ectx = emit (''static void '' @ attribUnused @ nl @ ''tcg_out_'' @ opcLower
                       @ ''(TCGContext *s'') ectx;
          ectx = fold (\<lambda>fd. emit ('', '' @ typ' fd @ '' '' @ name fd)) argFieldDescs ectx;
          ectx = emit ('')'' @ nl @ ''{'' @ nl) ectx
      in if length (Args (Format d)) = 0
         then emit (''}'' @ nl) (emit (''    tcg_out32(s, '' @ opc @ '');'' @ nl) ectx)
         else
           (let fmtEncoderFnName = fmtEncoderFnNameForInsnFormat X (Format d);
                ectx = emit (''    tcg_out32(s, '' @ fmtEncoderFnName @ ''('' @ opc) ectx;
                ectx = fold (\<lambda>fd. emit ('', '' @ name fd)) argFieldDescs ectx;
                ectx = emit (''));'' @ nl) ectx
            in emit (''}'' @ nl) ectx))"

text \<open>
  \<^verbatim>\<open>main\<close> of the QEMU generator, from the descriptions read to the bytes written to
  standard output. Writing the style file and running \<^verbatim>\<open>clang-format\<close> on the
  finished buffer is the parameter \<open>clangFormat\<close>; any failure there panics.
\<close>

definition main_qemu ::
  "Externals \<Rightarrow> ((string \<times> InsnFormat) list \<Rightarrow> (string \<times> InsnFormat) list)
     \<Rightarrow> (string list \<Rightarrow> string list) \<Rightarrow> InsnDescription list \<Rightarrow> error + string" where
  "main_qemu X rngFormats rngScs descs =
     (let descs = filterUnusedInsns descs;
          formats = gatherFormats X rngFormats descs
      in case gatherDistinctSlotCombinations rngScs formats of
           Inl e \<Rightarrow> Inl e
         | Inr scs \<Rightarrow>
             (let descs = sortSliceDescs X descs;
                  formats = sortSliceFormats X formats;
                  ectx = [];
                  ectx = emit (''/* SPDX-License-Identifier: MIT */'' @ nl) ectx;
                  ectx = emit (''/*'' @ nl) ectx;
                  ectx = emit ('' * LoongArch instruction formats, opcodes, and encoders for TCG use.'' @ nl) ectx;
                  ectx = emit ('' *'' @ nl) ectx;
                  ectx = emit ('' * This file is auto-generated by genqemutcgdefs from'' @ nl) ectx;
                  ectx = emit ('' * https://github.com/loongson-community/loongarch-opcodes,'' @ nl) ectx;
                  ectx = emit ('' * from commit '' @ MustGetGitCommitHash X @ ''.'' @ nl) ectx;
                  ectx = emit ('' * DO NOT EDIT.'' @ nl) ectx;
                  ectx = emit ('' */'' @ nl) ectx;
                  ectx = emitOpcEnum descs ectx
              in case emitSlotEncoders_qemu scs ectx of
                   Inl e \<Rightarrow> Inl e
                 | Inr ectx \<Rightarrow>
                     (case emitFmtEncoderFns X formats ectx of
                        Inl e \<Rightarrow> Inl e
                      | Inr ectx \<Rightarrow>
                          (let ectx = fold (emitTCGEmitterForInsn X) descs ectx;
                               ectx = emit (nl @ ''/* End of generated code.  */'' @ nl) ectx
                           in clangFormat X ectx))))"

section \<open>Sample data for the closed examples\<close>

text \<open>
  A naming in the style of the names the source quotes in its comments (\<^verbatim>\<open>DJKM\<close>,
  \<^verbatim>\<open>Sd5k16\<close>, \<^verbatim>\<open>sk12\<close>, \<^verbatim>\<open>EMPTY\<close>): a register at a slot is the slot's letter,
  an immediate is \<open>S\<close> or \<open>U\<close> followed by letter and width of each slot. It instantiates
  the parameters in the examples only; every general theorem holds for any naming.
\<close>

definition sampleSlotLetter :: "nat \<Rightarrow> char" where
  "sampleSlotLetter s = (case slotRune s of Inl e \<Rightarrow> CHR ''X'' | Inr c \<Rightarrow> c)"

definition sampleArgRepr :: "Arg \<Rightarrow> string" where
  "sampleArgRepr a =
     (case Kind a of
        ArgKindIntReg \<Rightarrow> map (\<lambda>s. sampleSlotLetter (Offset s)) (Slots a)
      | ArgKindFPReg \<Rightarrow> ''F'' @ ToLower (map (\<lambda>s. sampleSlotLetter (Offset s)) (Slots a))
      | ArgKindFCCReg \<Rightarrow> ''C'' @ ToLower (map (\<lambda>s. sampleSlotLetter (Offset s)) (Slots a))
      | ArgKindSignedImm \<Rightarrow>
          ''S'' @ concat (map (\<lambda>s. toLowerChar (sampleSlotLetter (Offset s)) # itoa (Width s)) (Slots a))
      | ArgKindUnsignedImm \<Rightarrow>
          ''U'' @ concat (map (\<lambda>s. toLowerChar (sampleSlotLetter (Offset s)) # itoa (Width s)) (Slots a)))"

definition sampleFormatRepr :: "InsnFormat \<Rightarrow> string" where
  "sampleFormatRepr f = (if Args f = [] then ''EMPTY'' else concat (map sampleArgRepr (Args f)))"

definition sampleExternals :: Externals where
  "sampleExternals =
     \<lparr> FormatCanonicalRepr = sampleFormatRepr,
       ArgCanonicalRepr = sampleArgRepr,
       MustGetGitCommitHash = ''0000000'',
       sortSliceDescs = sort_key Word,
       sortSliceFormats = sort_key sampleFormatRepr,
       formatSource = Inr,
       clangFormat = Inr \<rparr>"

definition regD :: Arg where
  "regD = \<lparr> Kind = ArgKindIntReg, Slots = [\<lparr> Offset = 0, Width = 5 \<rparr>] \<rparr>"

definition regJ :: Arg where
  "regJ = \<lparr> Kind = ArgKindIntReg, Slots = [\<lparr> Offset = 5, Width = 5 \<rparr>] \<rparr>"

definition regK :: Arg where
  "regK = \<lparr> Kind = ArgKindIntReg, Slots = [\<lparr> Offset = 10, Width = 5 \<rparr>] \<rparr>"

definition immSk12 :: Arg where
  "immSk12 = \<lparr> Kind = ArgKindSignedImm, Slots = [\<lparr> Offset = 10, Width = 12 \<rparr>] \<rparr>"

definition immUk12 :: Arg where
  "immUk12 = \<lparr> Kind = ArgKindUnsignedImm, Slots = [\<lparr> Offset = 10, Width = 12 \<rparr>] \<rparr>"

definition immSd5k16 :: Arg where
  "immSd5k16 = \<lparr> Kind = ArgKindSignedImm,
                 Slots = [\<lparr> Offset = 0, Width = 5 \<rparr>, \<lparr> Offset = 10, Width = 16 \<rparr>] \<rparr>"

definition fmtDJK :: InsnFormat where
  "fmtDJK = \<lparr> Args = [regD, regJ, regK] \<rparr>"

definition fmtDJSk12 :: InsnFormat where
  "fmtDJSk12 = \<lparr> Args = [regD, regJ, immSk12] \<rparr>"

definition fmtDJUk12 :: InsnFormat where
  "fmtDJUk12 = \<lparr> Args = [regD, regJ, immUk12] \<rparr>"

definition fmtJSd5k16 :: InsnFormat where
  "fmtJSd5k16 = \<lparr> Args = [regJ, immSd5k16] \<rparr>"

definition fmtEMPTY :: InsnFormat where
  "fmtEMPTY = \<lparr> Args = [] \<rparr>"

definition insn_add_w :: InsnDescription where
  "insn_add_w = \<lparr> Word = 0x00100000, Mnemonic = ''add.w'', Format = fmtDJK,
                  Attribs = [''qemu'' \<mapsto> ''''] \<rparr>"

definition insn_sub_w :: InsnDescription where
  "insn_sub_w = \<lparr> Word = 0x00110000, Mnemonic = ''sub.w'', Format = fmtDJK,
                  Attribs = Map.empty \<rparr>"

definition insn_addi_w :: InsnDescription where
  "insn_addi_w = \<lparr> Word = 0x02800000, Mnemonic = ''addi.w'', Format = fmtDJSk12,
                   Attribs = [''qemu'' \<mapsto> ''''] \<rparr>"

definition fmtOdd :: InsnFormat where
  "fmtOdd = \<lparr> Args = [\<lparr> Kind = ArgKindIntReg, Slots = [\<lparr> Offset = 3, Width = 5 \<rparr>] \<rparr>] \<rparr>"

definition insn_odd :: InsnDescription where
  "insn_odd = \<lparr> Word = 0x7c000000, Mnemonic = ''odd'', Format = fmtOdd,
               Attribs = [''qemu'' \<mapsto> ''''] \<rparr>"

text \<open>The values \<open>d = 1\<close>, \<open>j = 2\<close> and an immediate \<open>-1\<close>, as 32-bit values of the
  variables of an encoder.\<close>

definition envMinusOne :: "string \<Rightarrow> 32 word" where
  "envMinusOne v = (if v = ''d'' then 1 else if v = ''j'' then 2 else 0xFFFFFFFF)"

text \<open>Outcomes of the checks on a sample instruction: \<^verbatim>\<open>rj\<close> and the immediate are
  both rejected.\<close>

definition wantSample :: "wantCall \<Rightarrow> string option" where
  "wantSample c =
     (case c of
        WantIntReg p \<Rightarrow> (if p = ''insn.rj'' then Some ''rj is not an integer register'' else None)
      | WantSignedImm p w \<Rightarrow> Some ''imm1 is out of range''
      | _ \<Rightarrow> None)"

text \<open>A second record with the mnemonic of \<open>insn_add_w\<close>.\<close>

definition insn_add_w_again :: InsnDescription where
  "insn_add_w_again = \<lparr> Word = 0x00108000, Mnemonic = ''add.w'', Format = fmtDJK,
                        Attribs = [''qemu'' \<mapsto> ''''] \<rparr>"

section \<open>Properties of the format catalog\<close>

lemma formatsSet_of_snoc:
  "formatsSet_of X (descs @ [d]) = formatsSet_insert X (formatsSet_of X descs) d"
  by (simp add: formatsSet_of_def)

lemma formatsSet_keys:
  "fst ` set (formatsSet_of X descs) = FormatCanonicalRepr X ` Format ` set descs"
proof (induction descs rule: rev_induct)
  case Nil
  show ?case by (simp add: formatsSet_of_def)
next
  case (snoc d descs)
  show ?case
  proof (cases "map_of (formatsSet_of X descs) (FormatCanonicalRepr X (Format d)) = None")
    case True
    then show ?thesis using snoc
      by (simp add: formatsSet_of_snoc formatsSet_insert_def image_Un)
  next
    case False
    then have "FormatCanonicalRepr X (Format d) \<in> fst ` set (formatsSet_of X descs)"
      by (simp add: map_of_eq_None_iff)
    then have "FormatCanonicalRepr X (Format d) \<in> FormatCanonicalRepr X ` Format ` set descs"
      using snoc by simp
    then have "FormatCanonicalRepr X ` Format ` set (descs @ [d])
                 = FormatCanonicalRepr X ` Format ` set descs"
      by (simp add: insert_absorb)
    then show ?thesis using snoc False
      by (simp add: formatsSet_of_snoc formatsSet_insert_def Let_def)
  qed
qed

lemma formatsSet_distinct:
  "distinct (map fst (formatsSet_of X descs))"
proof (induction descs rule: rev_induct)
  case Nil
  show ?case by (simp add: formatsSet_of_def)
next
  case (snoc d descs)
  then show ?case
    by (auto simp: formatsSet_of_snoc formatsSet_insert_def Let_def map_of_eq_None_iff)
qed

lemma find_snoc:
  "find P (xs @ ys) = (case find P xs of None \<Rightarrow> find P ys | Some x \<Rightarrow> Some x)"
  by (induction xs) simp_all

lemma formatsSet_first:
  "(k, f) \<in> set (formatsSet_of X descs) \<Longrightarrow>
     k = FormatCanonicalRepr X f \<and>
     map_option Format (find (\<lambda>d. FormatCanonicalRepr X (Format d) = k) descs) = Some f"
proof (induction descs rule: rev_induct)
  case Nil
  then show ?case by (simp add: formatsSet_of_def)
next
  case (snoc d descs)
  show ?case
  proof (cases "(k, f) \<in> set (formatsSet_of X descs)")
    case True
    with snoc.IH show ?thesis by (auto simp: find_snoc split: option.splits)
  next
    case False
    with snoc.prems
    have new: "map_of (formatsSet_of X descs) (FormatCanonicalRepr X (Format d)) = None"
      and kf: "k = FormatCanonicalRepr X (Format d)" "f = Format d"
      by (auto simp: formatsSet_of_snoc formatsSet_insert_def Let_def split: if_splits)
    from new have "FormatCanonicalRepr X (Format d) \<notin> FormatCanonicalRepr X ` Format ` set descs"
      by (simp add: map_of_eq_None_iff formatsSet_keys)
    then have "\<forall>x \<in> set descs. FormatCanonicalRepr X (Format x) \<noteq> FormatCanonicalRepr X (Format d)"
      by (metis imageI)
    then have "find (\<lambda>d'. FormatCanonicalRepr X (Format d') = FormatCanonicalRepr X (Format d)) descs = None"
      by (simp add: find_None_iff)
    with kf show ?thesis by (simp add: find_snoc)
  qed
qed

lemma formatsSet_present_unchanged:
  "FormatCanonicalRepr X (Format d) \<in> FormatCanonicalRepr X ` Format ` set descs \<Longrightarrow>
     formatsSet_of X (descs @ [d]) = formatsSet_of X descs"
  using formatsSet_keys [of X descs]
  by (simp add: formatsSet_of_snoc formatsSet_insert_def Let_def map_of_eq_None_iff)

lemma gatherFormats_names:
  assumes "range_order rng"
  shows "map (FormatCanonicalRepr X) (gatherFormats X rng descs)
           = map fst (rng (formatsSet_of X descs))"
proof -
  have "set (rng (formatsSet_of X descs)) = set (formatsSet_of X descs)"
    using assms by (metis range_order_def mset_eq_setD)
  then show ?thesis
    unfolding gatherFormats_def map_map map_eq_conv
    using formatsSet_first [of _ _ X descs] by auto
qed

lemma gatherFormats_distinct:
  assumes "range_order rng"
  shows "distinct (map (FormatCanonicalRepr X) (gatherFormats X rng descs))"
proof -
  have "mset (map fst (rng (formatsSet_of X descs))) = mset (map fst (formatsSet_of X descs))"
    using assms by (metis range_order_def mset_map)
  then have "distinct (map fst (rng (formatsSet_of X descs)))"
    using formatsSet_distinct [of X descs] by (metis mset_eq_imp_distinct_iff)
  then show ?thesis by (simp only: gatherFormats_names [OF assms])
qed

lemma gatherFormats_name_set:
  assumes "range_order rng"
  shows "FormatCanonicalRepr X ` set (gatherFormats X rng descs)
           = FormatCanonicalRepr X ` Format ` set descs"
proof -
  have "set (rng (formatsSet_of X descs)) = set (formatsSet_of X descs)"
    using assms by (metis range_order_def mset_eq_setD)
  then have "set (map fst (rng (formatsSet_of X descs))) = fst ` set (formatsSet_of X descs)"
    by (simp only: set_map)
  then have "set (map (FormatCanonicalRepr X) (gatherFormats X rng descs))
               = FormatCanonicalRepr X ` Format ` set descs"
    by (simp only: gatherFormats_names [OF assms] formatsSet_keys)
  then show ?thesis by (simp only: set_map)
qed

lemma gatherFormats_length:
  assumes "range_order rng"
  shows "length (gatherFormats X rng descs) = card (FormatCanonicalRepr X ` Format ` set descs)"
proof -
  have "length (gatherFormats X rng descs)
          = length (map (FormatCanonicalRepr X) (gatherFormats X rng descs))"
    by simp
  also have "\<dots> = card (set (map (FormatCanonicalRepr X) (gatherFormats X rng descs)))"
    using gatherFormats_distinct [OF assms, of X descs] by (simp only: distinct_card)
  also have "\<dots> = card (FormatCanonicalRepr X ` Format ` set descs)"
    using gatherFormats_name_set [OF assms, of X descs] by (simp only: set_map)
  finally show ?thesis .
qed

lemma gatherFormats_first:
  assumes "range_order rng" and "f \<in> set (gatherFormats X rng descs)"
  shows "map_option Format
           (find (\<lambda>d. FormatCanonicalRepr X (Format d) = FormatCanonicalRepr X f) descs) = Some f"
proof -
  have "set (rng (formatsSet_of X descs)) = set (formatsSet_of X descs)"
    using assms(1) by (metis range_order_def mset_eq_setD)
  with assms(2) obtain k where "(k, f) \<in> set (formatsSet_of X descs)"
    by (auto simp: gatherFormats_def)
  then show ?thesis using formatsSet_first by blast
qed

text \<open>
  C4. Format canonicalization deduplicates by canonical signature. Whatever order the
  map is ranged over: the catalog has as many entries as the records have distinct
  signatures; no two entries share a signature; the signatures of the catalog are those
  of the records; each entry is the format of the first record bearing its signature; and
  a further record whose signature is already present leaves the catalog as it was.
\<close>

theorem gatherFormats_dedup:
  assumes "range_order rng"
  shows "length (gatherFormats X rng descs) = card (FormatCanonicalRepr X ` Format ` set descs)
       \<and> distinct (map (FormatCanonicalRepr X) (gatherFormats X rng descs))
       \<and> FormatCanonicalRepr X ` set (gatherFormats X rng descs)
           = FormatCanonicalRepr X ` Format ` set descs
       \<and> (\<forall>f \<in> set (gatherFormats X rng descs).
            map_option Format
              (find (\<lambda>d. FormatCanonicalRepr X (Format d) = FormatCanonicalRepr X f) descs) = Some f)
       \<and> (FormatCanonicalRepr X (Format d) \<in> FormatCanonicalRepr X ` Format ` set descs \<longrightarrow>
            gatherFormats X rng (descs @ [d]) = gatherFormats X rng descs)"
proof (intro conjI ballI impI)
  show "length (gatherFormats X rng descs) = card (FormatCanonicalRepr X ` Format ` set descs)"
    by (rule gatherFormats_length [OF assms])
  show "distinct (map (FormatCanonicalRepr X) (gatherFormats X rng descs))"
    by (rule gatherFormats_distinct [OF assms])
  show "FormatCanonicalRepr X ` set (gatherFormats X rng descs)
          = FormatCanonicalRepr X ` Format ` set descs"
    by (rule gatherFormats_name_set [OF assms])
next
  fix f assume "f \<in> set (gatherFormats X rng descs)"
  then show "map_option Format
      (find (\<lambda>d. FormatCanonicalRepr X (Format d) = FormatCanonicalRepr X f) descs) = Some f"
    by (rule gatherFormats_first [OF assms])
next
  assume "FormatCanonicalRepr X (Format d) \<in> FormatCanonicalRepr X ` Format ` set descs"
  then show "gatherFormats X rng (descs @ [d]) = gatherFormats X rng descs"
    by (simp add: gatherFormats_def formatsSet_present_unchanged)
qed

theorem gatherFormats_dedup_witness:
  "range_order (rev :: (string \<times> InsnFormat) list \<Rightarrow> (string \<times> InsnFormat) list)
   \<and> length (gatherFormats sampleExternals rev [insn_add_w, insn_sub_w, insn_addi_w])
       = card (FormatCanonicalRepr sampleExternals ` Format ` set [insn_add_w, insn_sub_w, insn_addi_w])
   \<and> gatherFormats sampleExternals rev [insn_add_w, insn_sub_w, insn_addi_w] = [fmtDJSk12, fmtDJK]"
proof -
  have h: "range_order (rev :: (string \<times> InsnFormat) list \<Rightarrow> (string \<times> InsnFormat) list)"
    by (simp add: range_order_def)
  have names: "sampleFormatRepr fmtDJK = ''DJK''" "sampleFormatRepr fmtDJSk12 = ''DJSk12''"
    by (simp_all add: sampleFormatRepr_def sampleArgRepr_def fmtDJK_def fmtDJSk12_def
        regD_def regJ_def regK_def immSk12_def sampleSlotLetter_def slotRune_def
        slotD_def slotJ_def slotK_def slotA_def slotM_def toLowerChar_def itoa_def
        formatUint.simps digitChar_def)
  have "gatherFormats sampleExternals rev [insn_add_w, insn_sub_w, insn_addi_w] = [fmtDJSk12, fmtDJK]"
    by (simp add: gatherFormats_def formatsSet_of_def formatsSet_insert_def sampleExternals_def
        insn_add_w_def insn_sub_w_def insn_addi_w_def names)
  then show ?thesis
    using h gatherFormats_dedup [OF h, of sampleExternals "[insn_add_w, insn_sub_w, insn_addi_w]" insn_add_w]
    by simp
qed

section \<open>Properties of the slot combinations\<close>

lemma slotRune_Inl:
  "slotRune s = Inl e \<longleftrightarrow> e = Panic ''should never happen'' \<and> s \<notin> slotTags"
  by (auto simp: slotRune_def slotTags_def)

lemma slotRune_Inr_tag: "(\<exists>c. slotRune s = Inr c) \<longleftrightarrow> s \<in> slotTags"
  by (auto simp: slotRune_def slotTags_def)

lemma writeSlotRunes_Inr:
  "writeSlotRunes slots sb = Inr r \<longleftrightarrow> (\<exists>cs. map slotRune slots = map Inr cs \<and> r = sb @ cs)"
proof (induction slots arbitrary: sb)
  case Nil
  show ?case by auto
next
  case (Cons s slots)
  show ?case
  proof (cases "slotRune s")
    case (Inl e)
    then show ?thesis by (auto simp: map_eq_Cons_conv)
  next
    case (Inr c)
    then show ?thesis
      by (auto simp: Cons.IH map_eq_Cons_conv Cons_eq_map_conv)
  qed
qed

lemma writeSlotRunes_Inl:
  "writeSlotRunes slots sb = Inl e \<longleftrightarrow>
     e = Panic ''should never happen'' \<and> \<not> set slots \<subseteq> slotTags"
proof (induction slots arbitrary: sb)
  case Nil
  show ?case by simp
next
  case (Cons s slots)
  show ?case
  proof (cases "slotRune s")
    case (Inl e')
    then show ?thesis using slotRune_Inl [of s e'] by auto
  next
    case (Inr c)
    then have "s \<in> slotTags" using slotRune_Inr_tag by blast
    then show ?thesis using Inr by (simp add: Cons.IH)
  qed
qed

lemma slotCombinationForFmt_Inr:
  "slotCombinationForFmt f = Inr sc \<longleftrightarrow> map slotRune (sort (slotOffsets f)) = map Inr sc"
  by (auto simp: slotCombinationForFmt_def writeSlotRunes_Inr)

lemma slotCombinationForFmt_Inl:
  "slotCombinationForFmt f = Inl e \<longleftrightarrow>
     e = Panic ''should never happen'' \<and> \<not> set (slotOffsets f) \<subseteq> slotTags"
  by (simp add: slotCombinationForFmt_def writeSlotRunes_Inl)

lemma slotOffsets_no_args: "length (Args f) = 0 \<Longrightarrow> slotOffsets f = []"
  by (simp add: slotOffsets_def)

lemma slotCombinationsSet_of_Inl:
  "slotCombinationsSet_of fmts scset = Inl e \<longleftrightarrow>
     e = Panic ''should never happen'' \<and> (\<exists>g \<in> set fmts. \<not> set (slotOffsets g) \<subseteq> slotTags)"
proof (induction fmts arbitrary: scset)
  case Nil
  show ?case by simp
next
  case (Cons f fmts)
  show ?case
  proof (cases "length (Args f) = 0")
    case True
    then show ?thesis using slotOffsets_no_args [OF True] by (simp add: Cons.IH)
  next
    case False
    show ?thesis
    proof (cases "slotCombinationForFmt f")
      case (Inl e')
      then show ?thesis using False slotCombinationForFmt_Inl [of f e'] by auto
    next
      case (Inr sc)
      then have "set (slotOffsets f) \<subseteq> slotTags"
        using slotCombinationForFmt_Inl [of f] by (metis Inl_Inr_False)
      then show ?thesis using False Inr by (simp add: Cons.IH)
    qed
  qed
qed

lemma slotCombinationsSet_of_Inr:
  "slotCombinationsSet_of fmts scset = Inr r \<Longrightarrow> distinct scset \<Longrightarrow>
     distinct r \<and> set r = set scset \<union> codesOf fmts"
proof (induction fmts arbitrary: scset)
  case Nil
  then show ?case by (simp add: codesOf_def)
next
  case (Cons f fmts)
  show ?case
  proof (cases "length (Args f) = 0")
    case True
    then have "codesOf (f # fmts) = codesOf fmts" by (auto simp: codesOf_def)
    then show ?thesis using Cons True by simp
  next
    case False
    then obtain sc where sc: "slotCombinationForFmt f = Inr sc"
      using Cons.prems(1) by (cases "slotCombinationForFmt f") auto
    have cs: "codesOf (f # fmts) = insert sc (codesOf fmts)"
      using False sc by (auto simp: codesOf_def)
    let ?s = "if sc \<in> set scset then scset else scset @ [sc]"
    have "slotCombinationsSet_of fmts ?s = Inr r" using Cons.prems(1) False sc by simp
    moreover have "distinct ?s" using Cons.prems(2) by simp
    ultimately have "distinct r \<and> set r = set ?s \<union> codesOf fmts" by (rule Cons.IH)
    then show ?thesis using cs by auto
  qed
qed

lemma gatherDistinctSlotCombinations_Inr:
  assumes "range_order rng" and "gatherDistinctSlotCombinations rng fmts = Inr scs"
  shows "sorted scs \<and> distinct scs \<and> set scs = codesOf fmts"
proof -
  from assms(2) obtain r where r: "slotCombinationsSet_of fmts [] = Inr r" and scs: "scs = sort (rng r)"
    by (auto simp: gatherDistinctSlotCombinations_def split: sum.splits)
  from r have dr: "distinct r \<and> set r = codesOf fmts"
    using slotCombinationsSet_of_Inr [of fmts "[]" r] by simp
  have m: "mset (rng r) = mset r" using assms(1) by (simp add: range_order_def)
  then have "distinct (rng r)" "set (rng r) = set r"
    using dr by (metis mset_eq_imp_distinct_iff, metis mset_eq_setD)
  then show ?thesis using scs dr by simp
qed

lemma gatherDistinctSlotCombinations_Inl:
  "gatherDistinctSlotCombinations rng fmts = Inl e \<longleftrightarrow>
     e = Panic ''should never happen'' \<and> (\<exists>g \<in> set fmts. \<not> set (slotOffsets g) \<subseteq> slotTags)"
  using slotCombinationsSet_of_Inl [of fmts "[]" e]
  by (auto simp: gatherDistinctSlotCombinations_def split: sum.splits)

lemma gatherDistinctSlotCombinations_unique:
  assumes "range_order rng1" and "range_order rng2"
  shows "gatherDistinctSlotCombinations rng1 fmts = gatherDistinctSlotCombinations rng2 fmts"
proof (cases "slotCombinationsSet_of fmts []")
  case (Inl e)
  then show ?thesis by (simp add: gatherDistinctSlotCombinations_def)
next
  case (Inr r)
  have "mset (rng1 r) = mset (rng2 r)" using assms by (simp add: range_order_def)
  then have "sort (rng1 r) = sort (rng2 r)"
    by (metis properties_for_sort sorted_sort mset_sort)
  then show ?thesis using Inr by (simp add: gatherDistinctSlotCombinations_def)
qed


lemma slotTags_eq: "slotTags = {0, 5, 10, 15, 16}"
  by (simp add: slotTags_def slotD_def slotJ_def slotK_def slotA_def slotM_def)

lemma gatherDistinctSlotCombinations_set_cong:
  assumes "range_order rng1" and "range_order rng2" and "set fmts1 = set fmts2"
  shows "gatherDistinctSlotCombinations rng1 fmts1 = gatherDistinctSlotCombinations rng2 fmts2"
proof (cases "gatherDistinctSlotCombinations rng1 fmts1")
  case (Inl e)
  then have "gatherDistinctSlotCombinations rng2 fmts2 = Inl e"
    using assms(3) by (simp add: gatherDistinctSlotCombinations_Inl)
  with Inl show ?thesis by simp
next
  case (Inr scs)
  show ?thesis
  proof (cases "gatherDistinctSlotCombinations rng2 fmts2")
    case (Inl e)
    then have "gatherDistinctSlotCombinations rng1 fmts1 = Inl e"
      using assms(3) by (simp add: gatherDistinctSlotCombinations_Inl)
    with Inr show ?thesis by simp
  next
    case r2: (Inr scs2)
    have c: "codesOf fmts1 = codesOf fmts2" using assms(3) by (simp add: codesOf_def)
    have "sorted scs \<and> distinct scs \<and> set scs = codesOf fmts1"
      by (rule gatherDistinctSlotCombinations_Inr [OF assms(1) Inr])
    moreover have "sorted scs2 \<and> distinct scs2 \<and> set scs2 = codesOf fmts2"
      by (rule gatherDistinctSlotCombinations_Inr [OF assms(2) r2])
    ultimately have "scs = scs2" using c by (metis sorted_distinct_set_unique)
    with Inr r2 show ?thesis by simp
  qed
qed

lemma main_insndata_panic:
  assumes "gatherDistinctSlotCombinations rngScs (gatherFormats X rngFormats descs) = Inl e"
  shows "main_insndata X rngFormats rngScs descs = Inl e"
  unfolding main_insndata_def Let_def using assms by (simp only: sum.case)

lemma main_qemu_panic:
  assumes "gatherDistinctSlotCombinations rngScs (gatherFormats X rngFormats (filterUnusedInsns descs)) = Inl e"
  shows "main_qemu X rngFormats rngScs descs = Inl e"
  unfolding main_qemu_def Let_def using assms by (simp only: sum.case)

text \<open>
  C6. The combination code of a format is, letter by letter, the tag of its slot offsets
  taken over all arguments and sorted ascending; it exists when every offset has a tag.
  The registry skips the formats without arguments and returns the codes of the others,
  sorted and without repetition, whatever order the set is ranged over.
\<close>

theorem slotCombination_codes:
  assumes "range_order rng"
  shows "(slotCombinationForFmt f = Inr sc \<longleftrightarrow> map slotRune (sort (slotOffsets f)) = map Inr sc)
       \<and> (set (slotOffsets f) \<subseteq> slotTags \<longrightarrow> (\<exists>code. slotCombinationForFmt f = Inr code))
       \<and> ((\<forall>g \<in> set fmts. set (slotOffsets g) \<subseteq> slotTags) \<longrightarrow>
            (\<exists>scs. gatherDistinctSlotCombinations rng fmts = Inr scs))
       \<and> (gatherDistinctSlotCombinations rng fmts = Inr scs \<longrightarrow>
            sorted scs \<and> distinct scs
            \<and> set scs = {code. \<exists>g \<in> set fmts. Args g \<noteq> [] \<and> slotCombinationForFmt g = Inr code})"
proof (intro conjI impI)
  show "slotCombinationForFmt f = Inr sc \<longleftrightarrow> map slotRune (sort (slotOffsets f)) = map Inr sc"
    by (rule slotCombinationForFmt_Inr)
next
  assume "set (slotOffsets f) \<subseteq> slotTags"
  then show "\<exists>code. slotCombinationForFmt f = Inr code"
    using slotCombinationForFmt_Inl [of f] by (cases "slotCombinationForFmt f") auto
next
  assume ok: "\<forall>g \<in> set fmts. set (slotOffsets g) \<subseteq> slotTags"
  show "\<exists>scs. gatherDistinctSlotCombinations rng fmts = Inr scs"
  proof (cases "gatherDistinctSlotCombinations rng fmts")
    case (Inl e)
    then show ?thesis using ok by (auto simp: gatherDistinctSlotCombinations_Inl)
  next
    case (Inr scs)
    then show ?thesis by blast
  qed
next
  assume r: "gatherDistinctSlotCombinations rng fmts = Inr scs"
  show "sorted scs" "distinct scs"
    "set scs = {code. \<exists>g \<in> set fmts. Args g \<noteq> [] \<and> slotCombinationForFmt g = Inr code}"
    using gatherDistinctSlotCombinations_Inr [OF assms r] by (simp_all add: codesOf_def)
qed

theorem slotCombination_codes_witness:
  "range_order (rev :: string list \<Rightarrow> string list)
   \<and> slotCombinationForFmt fmtJSd5k16 = Inr ''DJK''
   \<and> map slotRune (sort (slotOffsets fmtJSd5k16)) = map Inr ''DJK''
   \<and> gatherDistinctSlotCombinations rev [fmtDJSk12, fmtEMPTY, fmtJSd5k16, fmtDJK] = Inr [''DJK'']
   \<and> sorted [''DJK''] \<and> distinct [''DJK'']"
proof -
  have h: "range_order (rev :: string list \<Rightarrow> string list)"
    by (simp add: range_order_def)
  have offs: "slotOffsets fmtJSd5k16 = [5, 0, 10]" "slotOffsets fmtDJSk12 = [0, 5, 10]"
    "slotOffsets fmtDJK = [0, 5, 10]"
    by (simp_all add: slotOffsets_def fmtJSd5k16_def fmtDJSk12_def fmtDJK_def regJ_def regD_def
        regK_def immSd5k16_def immSk12_def)
  have runes: "slotRune 0 = Inr CHR ''D''" "slotRune 5 = Inr CHR ''J''" "slotRune 10 = Inr CHR ''K''"
    by (simp_all add: slotRune_def slotD_def slotJ_def slotK_def slotA_def slotM_def)
  have c: "slotCombinationForFmt fmtJSd5k16 = Inr ''DJK''"
    "slotCombinationForFmt fmtDJSk12 = Inr ''DJK''" "slotCombinationForFmt fmtDJK = Inr ''DJK''"
    by (simp_all add: slotCombinationForFmt_def offs runes)
  have g: "gatherDistinctSlotCombinations rev [fmtDJSk12, fmtEMPTY, fmtJSd5k16, fmtDJK] = Inr [''DJK'']"
    by (simp add: gatherDistinctSlotCombinations_def c)
       (simp add: fmtEMPTY_def fmtDJSk12_def fmtJSd5k16_def fmtDJK_def)
  show ?thesis
    using h c(1) g
      slotCombination_codes [OF h, of fmtJSd5k16 "''DJK''"
        "[fmtDJSk12, fmtEMPTY, fmtJSd5k16, fmtDJK]" "[''DJK'']"]
    by simp
qed

text \<open>
  C9. The offsets with a tag are exactly 0, 5, 10, 15 and 16 (D, J, K, A, M). The
  derivation of the combination of a format panics exactly when the format has a slot at
  another offset, and so does the registry when such a format is in its list; the run of
  either generator then ends in that panic and writes nothing.
\<close>

theorem slot_offset_panic:
  "slotTags = {0, 5, 10, 15, 16}
   \<and> slotRune 0 = Inr CHR ''D'' \<and> slotRune 5 = Inr CHR ''J'' \<and> slotRune 10 = Inr CHR ''K''
   \<and> slotRune 15 = Inr CHR ''A'' \<and> slotRune 16 = Inr CHR ''M''
   \<and> (slotCombinationForFmt f = Inl (Panic ''should never happen'')
        \<longleftrightarrow> (\<exists>offset \<in> set (slotOffsets f). offset \<notin> {0, 5, 10, 15, 16}))
   \<and> (gatherDistinctSlotCombinations rng fmts = Inl (Panic ''should never happen'')
        \<longleftrightarrow> (\<exists>g \<in> set fmts. \<exists>offset \<in> set (slotOffsets g). offset \<notin> {0, 5, 10, 15, 16}))
   \<and> ((\<exists>g \<in> set (gatherFormats X rngFormats descs).
          \<exists>offset \<in> set (slotOffsets g). offset \<notin> {0, 5, 10, 15, 16})
        \<longrightarrow> main_insndata X rngFormats rng descs = Inl (Panic ''should never happen''))
   \<and> ((\<exists>g \<in> set (gatherFormats X rngFormats (filterUnusedInsns descs)).
          \<exists>offset \<in> set (slotOffsets g). offset \<notin> {0, 5, 10, 15, 16})
        \<longrightarrow> main_qemu X rngFormats rng descs = Inl (Panic ''should never happen''))"
proof -
  have sub: "\<And>g. (\<not> set (slotOffsets g) \<subseteq> slotTags)
               \<longleftrightarrow> (\<exists>offset \<in> set (slotOffsets g). offset \<notin> {0, 5, 10, 15, 16})"
    by (auto simp: slotTags_eq)
  have runes: "slotRune 0 = Inr CHR ''D''" "slotRune 5 = Inr CHR ''J''" "slotRune 10 = Inr CHR ''K''"
    "slotRune 15 = Inr CHR ''A''" "slotRune 16 = Inr CHR ''M''"
    by (simp_all add: slotRune_def slotD_def slotJ_def slotK_def slotA_def slotM_def)
  have one: "slotCombinationForFmt f = Inl (Panic ''should never happen'')
        \<longleftrightarrow> (\<exists>offset \<in> set (slotOffsets f). offset \<notin> {0, 5, 10, 15, 16})"
    by (simp only: slotCombinationForFmt_Inl sub simp_thms)
  have reg: "\<And>fs. gatherDistinctSlotCombinations rng fs = Inl (Panic ''should never happen'')
        \<longleftrightarrow> (\<exists>g \<in> set fs. \<exists>offset \<in> set (slotOffsets g). offset \<notin> {0, 5, 10, 15, 16})"
    by (simp only: gatherDistinctSlotCombinations_Inl sub simp_thms)
  have m1: "(\<exists>g \<in> set (gatherFormats X rngFormats descs).
          \<exists>offset \<in> set (slotOffsets g). offset \<notin> {0, 5, 10, 15, 16})
        \<longrightarrow> main_insndata X rngFormats rng descs = Inl (Panic ''should never happen'')"
  proof
    assume "\<exists>g \<in> set (gatherFormats X rngFormats descs).
          \<exists>offset \<in> set (slotOffsets g). offset \<notin> {0, 5, 10, 15, 16}"
    then have "gatherDistinctSlotCombinations rng (gatherFormats X rngFormats descs)
                 = Inl (Panic ''should never happen'')"
      by (simp only: reg)
    then show "main_insndata X rngFormats rng descs = Inl (Panic ''should never happen'')"
      by (rule main_insndata_panic)
  qed
  have m2: "(\<exists>g \<in> set (gatherFormats X rngFormats (filterUnusedInsns descs)).
          \<exists>offset \<in> set (slotOffsets g). offset \<notin> {0, 5, 10, 15, 16})
        \<longrightarrow> main_qemu X rngFormats rng descs = Inl (Panic ''should never happen'')"
  proof
    assume "\<exists>g \<in> set (gatherFormats X rngFormats (filterUnusedInsns descs)).
          \<exists>offset \<in> set (slotOffsets g). offset \<notin> {0, 5, 10, 15, 16}"
    then have "gatherDistinctSlotCombinations rng (gatherFormats X rngFormats (filterUnusedInsns descs))
                 = Inl (Panic ''should never happen'')"
      by (simp only: reg)
    then show "main_qemu X rngFormats rng descs = Inl (Panic ''should never happen'')"
      by (rule main_qemu_panic)
  qed
  show ?thesis
    by (intro conjI) (rule slotTags_eq runes one reg m1 m2)+
qed

theorem slot_offset_panic_witness:
  "slotCombinationForFmt fmtOdd = Inl (Panic ''should never happen'')
   \<and> gatherDistinctSlotCombinations rev [fmtDJK, fmtOdd] = Inl (Panic ''should never happen'')
   \<and> main_insndata sampleExternals rev rev [insn_add_w, insn_odd] = Inl (Panic ''should never happen'')
   \<and> main_qemu sampleExternals rev rev [insn_add_w, insn_odd] = Inl (Panic ''should never happen'')"
proof -
  have offs: "slotOffsets fmtOdd = [3]"
    by (simp add: slotOffsets_def fmtOdd_def)
  have g: "fmtOdd \<in> set (gatherFormats sampleExternals rev [insn_add_w, insn_odd])"
    by (simp add: gatherFormats_def formatsSet_of_def formatsSet_insert_def sampleExternals_def
        insn_add_w_def insn_odd_def sampleFormatRepr_def sampleArgRepr_def fmtDJK_def fmtOdd_def
        regD_def regJ_def regK_def sampleSlotLetter_def slotRune_def
        slotD_def slotJ_def slotK_def slotA_def slotM_def)
  have q: "filterUnusedInsns [insn_add_w, insn_odd] = [insn_add_w, insn_odd]"
    by (simp add: insn_add_w_def insn_odd_def)
  have b1: "\<exists>offset \<in> set (slotOffsets fmtOdd). offset \<notin> {0, 5, 10, 15, 16}"
    by (simp add: offs)
  have b2: "\<exists>h \<in> set [fmtDJK, fmtOdd]. \<exists>offset \<in> set (slotOffsets h). offset \<notin> {0, 5, 10, 15, 16}"
    by (simp add: offs)
  have b3: "\<exists>h \<in> set (gatherFormats sampleExternals rev [insn_add_w, insn_odd]).
              \<exists>offset \<in> set (slotOffsets h). offset \<notin> {0, 5, 10, 15, 16}"
    using g b1 by blast
  have b4: "\<exists>h \<in> set (gatherFormats sampleExternals rev (filterUnusedInsns [insn_add_w, insn_odd])).
              \<exists>offset \<in> set (slotOffsets h). offset \<notin> {0, 5, 10, 15, 16}"
    using b3 by (simp only: q)
  note t = slot_offset_panic [of fmtOdd rev "[fmtDJK, fmtOdd]" sampleExternals rev
      "[insn_add_w, insn_odd]"]
  show ?thesis using t b1 b2 b3 b4 by (simp only: simp_thms)
qed

section \<open>Properties of the emitted encoders and assertions\<close>

lemmas sample_defs = sampleExternals_def sampleFormatRepr_def sampleArgRepr_def sampleSlotLetter_def
  fmtDJK_def fmtDJSk12_def fmtDJUk12_def fmtJSd5k16_def fmtEMPTY_def
  regD_def regJ_def regK_def immSk12_def immUk12_def immSd5k16_def

lemmas slot_defs = slotRune_def slotOffsetFromRune_def slotD_def slotJ_def slotK_def slotA_def slotM_def

lemmas text_defs = itoa_def hex_def formatUint.simps digitChar_def ToLower_def toLowerChar_def
  ToUpper_def toUpperChar_def

lemma sample_names:
  "sampleArgRepr regD = ''D''" "sampleArgRepr regJ = ''J''" "sampleArgRepr regK = ''K''"
  "sampleArgRepr immSk12 = ''Sk12''" "sampleArgRepr immUk12 = ''Uk12''"
  "sampleArgRepr immSd5k16 = ''Sd5k16''"
  by (simp_all add: sample_defs slot_defs text_defs)

lemma frag_qemu:
  "argSlotExprs_qemu ''sd5k16'' immSd5k16
     = [(0, SlotExpr ''sd5k16'' 16 (Some 0x1f)), (10, SlotExpr ''sd5k16'' 0 (Some 0xffff))]"
  by (simp add: argSlotExprs_qemu_def immSd5k16_def TotalWidth_def)

lemma frag_insndata:
  "argSlotExprs_insndata ''sd5k16'' immSd5k16
     = [(0, SlotExpr ''sd5k16'' 16 (Some 0x1f)), (10, SlotExpr ''sd5k16'' 0 (Some 0xffff))]"
  by (simp add: argSlotExprs_insndata_def immSd5k16_def TotalWidth_def)

lemma word_of_nat_mask: "(word_of_nat (2 ^ w - 1) :: 32 word) = mask w"
  by (simp add: mask_eq_exp_minus_1 of_nat_diff)

lemma masks32: "(0x1f :: 32 word) = mask 5" "(0xffff :: 32 word) = mask 16"
  "(0x1FFFFF :: 32 word) = mask 21" "(0xfff :: 32 word) = mask 12"
  by (simp_all add: mask_eq_exp_minus_1)

lemma recombine_arith:
  "push_bit 16 (signed_drop_bit 16 v AND 0x1f) OR (v AND 0xffff) = v AND (0x1FFFFF :: 32 word)"
  unfolding masks32
  by (rule bit_word_eqI) (auto simp: bit_simps)

lemma recombine_logic:
  "push_bit 16 (drop_bit 16 v AND 0x1f) OR (v AND 0xffff) = v AND (0x1FFFFF :: 32 word)"
  unfolding masks32
  by (rule bit_word_eqI) (auto simp: bit_simps)

lemma frag_values:
  "signed_drop_bit 16 (0x155555 :: 32 word) AND 0x1f = 0x15"
  "drop_bit 16 (0x155555 :: 32 word) AND 0x1f = 0x15"
  "(0x155555 :: 32 word) AND 0xffff = 0x5555"
  by simp_all

text \<open>
  C3 (as amended). For the argument of total width 21 with a 5-bit slot followed by a
  16-bit slot, both encoders extract \<^verbatim>\<open>(v >> 16) & 0x1f\<close> and \<^verbatim>\<open>v & 0xffff\<close>; on
  \<open>0x155555\<close> the fragments are \<open>0x15\<close> and \<open>0x5555\<close>, and for every value the high
  fragment shifted left by 16 joined with the low one is the value masked to 21 bits.
\<close>

theorem multi_slot_fragments:
  "TotalWidth immSd5k16 = 21
   \<and> argSlotExprs_qemu ''sd5k16'' immSd5k16
       = [(0, SlotExpr ''sd5k16'' 16 (Some 0x1f)), (10, SlotExpr ''sd5k16'' 0 (Some 0xffff))]
   \<and> argSlotExprs_insndata ''sd5k16'' immSd5k16 = argSlotExprs_qemu ''sd5k16'' immSd5k16
   \<and> map (\<lambda>(offset, e). evalSlotExpr isSigned (\<lambda>x. 0x155555) e)
         (argSlotExprs_qemu ''sd5k16'' immSd5k16) = [0x15, 0x5555]
   \<and> push_bit 16 (0x15 :: 32 word) OR 0x5555 = 0x155555 AND 0x1FFFFF
   \<and> (\<forall>v. \<exists>high low.
          map (\<lambda>(offset, e). evalSlotExpr isSigned (\<lambda>x. v) e)
            (argSlotExprs_qemu ''sd5k16'' immSd5k16) = [high, low]
          \<and> push_bit 16 high OR low = v AND 0x1FFFFF)"
proof (intro conjI allI)
  show "TotalWidth immSd5k16 = 21"
    by (simp add: TotalWidth_def immSd5k16_def)
  show "argSlotExprs_qemu ''sd5k16'' immSd5k16
       = [(0, SlotExpr ''sd5k16'' 16 (Some 0x1f)), (10, SlotExpr ''sd5k16'' 0 (Some 0xffff))]"
    by (rule frag_qemu)
  show "argSlotExprs_insndata ''sd5k16'' immSd5k16 = argSlotExprs_qemu ''sd5k16'' immSd5k16"
    by (simp only: frag_qemu frag_insndata)
  show "map (\<lambda>(offset, e). evalSlotExpr isSigned (\<lambda>x. 0x155555) e)
         (argSlotExprs_qemu ''sd5k16'' immSd5k16) = [0x15, 0x5555]"
    by (simp add: frag_qemu)
  show "push_bit 16 (0x15 :: 32 word) OR 0x5555 = 0x155555 AND 0x1FFFFF"
    by simp
next
  fix v :: "32 word"
  show "\<exists>high low.
          map (\<lambda>(offset, e). evalSlotExpr isSigned (\<lambda>x. v) e)
            (argSlotExprs_qemu ''sd5k16'' immSd5k16) = [high, low]
          \<and> push_bit 16 high OR low = v AND 0x1FFFFF"
  proof (cases "isSigned ''sd5k16''")
    case True
    then show ?thesis using recombine_arith [of v] by (simp add: frag_qemu)
  next
    case False
    then show ?thesis using recombine_logic [of v] by (simp add: frag_qemu)
  qed
qed

theorem multi_slot_fragments_counterexample:
  "map (\<lambda>(offset, e). evalSlotExpr (\<lambda>x. True) (\<lambda>x. 0x155555) e)
     (argSlotExprs_qemu ''sd5k16'' immSd5k16) \<noteq> [0x0A, 0x5555]
   \<and> map (\<lambda>(offset, e). evalSlotExpr (\<lambda>x. False) (\<lambda>x. 0x155555) e)
       (argSlotExprs_insndata ''sd5k16'' immSd5k16) \<noteq> [0x0A, 0x5555]"
  by (simp add: frag_qemu frag_insndata)

lemma assertion_signed:
  assumes "Kind a = ArgKindSignedImm" and "1 \<le> TotalWidth a"
  shows "assertionHolds val (assertionForArg a v)
           \<longleftrightarrow> - (2 ^ (TotalWidth a - 1)) \<le> val v \<and> val v \<le> 2 ^ (TotalWidth a - 1) - 1"
proof -
  have "int (2 ^ (TotalWidth a - 1) - 1) = 2 ^ (TotalWidth a - 1) - 1"
    by (simp add: of_nat_diff)
  moreover have "int (2 ^ (TotalWidth a - 1) - 1 + 1) = 2 ^ (TotalWidth a - 1)"
    by simp
  ultimately show ?thesis using assms(1)
    by (simp add: assertionForArg_def Let_def)
qed

lemma assertion_unsigned:
  assumes "Kind a = ArgKindUnsignedImm"
  shows "assertionHolds val (assertionForArg a v) \<longleftrightarrow> val v \<le> 2 ^ TotalWidth a - 1"
proof -
  have "int (2 ^ TotalWidth a - 1) = 2 ^ TotalWidth a - 1"
    by (simp add: of_nat_diff)
  then show ?thesis using assms by (simp add: assertionForArg_def Let_def)
qed

lemma zip_map_self: "zip (map h xs) xs = map (\<lambda>x. (h x, x)) xs"
  by (induction xs) simp_all

lemma fmtEncoderAsserts_args:
  "fmtEncoderAsserts X f = map (\<lambda>a. assertionForArg a (ToLower (ArgCanonicalRepr X a))) (Args f)"
  by (simp add: fmtEncoderAsserts_def fieldDescsForArgs_def zip_map_self
      insnFieldNameForRegArg_qemu_def)

text \<open>
  C5. The assertion written for an immediate of total width \<open>W\<close> (from 1 to 31 bits, the
  widths at which the literals are of type \<^verbatim>\<open>int\<close>) is exact: a signed immediate, an
  \<^verbatim>\<open>int32_t\<close>, passes iff \<open>- 2 ^ (W - 1) \<le> v \<le> 2 ^ (W - 1) - 1\<close>; an unsigned one, a
  \<^verbatim>\<open>uint32_t\<close>, passes iff \<open>0 \<le> v \<le> 2 ^ W - 1\<close>. The encoder of a format asserts this
  of each argument under the argument's own name, in argument order.
\<close>

theorem validator_bounds:
  assumes "1 \<le> TotalWidth a" and "TotalWidth a \<le> 31"
  shows "(Kind a = ArgKindSignedImm \<longrightarrow>
            (assertionHolds (\<lambda>x. paramValue ''int32_t'' (env x)) (assertionForArg a v)
               \<longleftrightarrow> - (2 ^ (TotalWidth a - 1)) \<le> sint (env v)
                    \<and> sint (env v) \<le> 2 ^ (TotalWidth a - 1) - 1))
       \<and> (Kind a = ArgKindUnsignedImm \<longrightarrow>
            (assertionHolds (\<lambda>x. paramValue ''uint32_t'' (env x)) (assertionForArg a v)
               \<longleftrightarrow> 0 \<le> uint (env v) \<and> uint (env v) \<le> 2 ^ TotalWidth a - 1))
       \<and> fmtEncoderAsserts X f
           = map (\<lambda>b. assertionForArg b (ToLower (ArgCanonicalRepr X b))) (Args f)"
proof (intro conjI impI)
  assume "Kind a = ArgKindSignedImm"
  then show "assertionHolds (\<lambda>x. paramValue ''int32_t'' (env x)) (assertionForArg a v)
               \<longleftrightarrow> - (2 ^ (TotalWidth a - 1)) \<le> sint (env v)
                    \<and> sint (env v) \<le> 2 ^ (TotalWidth a - 1) - 1"
    using assertion_signed [OF _ assms(1), of "\<lambda>x. paramValue ''int32_t'' (env x)" v]
    by (simp add: paramValue_def)
next
  assume "Kind a = ArgKindUnsignedImm"
  then show "assertionHolds (\<lambda>x. paramValue ''uint32_t'' (env x)) (assertionForArg a v)
               \<longleftrightarrow> 0 \<le> uint (env v) \<and> uint (env v) \<le> 2 ^ TotalWidth a - 1"
    using assertion_unsigned [of a "\<lambda>x. paramValue ''uint32_t'' (env x)" v]
    by (simp add: paramValue_def)
next
  show "fmtEncoderAsserts X f
           = map (\<lambda>b. assertionForArg b (ToLower (ArgCanonicalRepr X b))) (Args f)"
    by (rule fmtEncoderAsserts_args)
qed

theorem validator_bounds_witness:
  "1 \<le> TotalWidth immSk12 \<and> TotalWidth immSk12 \<le> 31 \<and> TotalWidth immUk12 = 12
   \<and> renderAssertion (assertionForArg immSk12 ''sk12'') = ''sk12 >= -0x800 && sk12 <= 0x7ff''
   \<and> renderAssertion (assertionForArg immUk12 ''uk12'') = ''uk12 <= 0xfff''
   \<and> assertionHolds (\<lambda>x. paramValue ''int32_t'' (- 2048)) (assertionForArg immSk12 ''sk12'')
   \<and> assertionHolds (\<lambda>x. paramValue ''int32_t'' 2047) (assertionForArg immSk12 ''sk12'')
   \<and> \<not> assertionHolds (\<lambda>x. paramValue ''int32_t'' (- 2049)) (assertionForArg immSk12 ''sk12'')
   \<and> \<not> assertionHolds (\<lambda>x. paramValue ''int32_t'' 2048) (assertionForArg immSk12 ''sk12'')
   \<and> assertionHolds (\<lambda>x. paramValue ''uint32_t'' 0) (assertionForArg immUk12 ''uk12'')
   \<and> assertionHolds (\<lambda>x. paramValue ''uint32_t'' 4095) (assertionForArg immUk12 ''uk12'')
   \<and> \<not> assertionHolds (\<lambda>x. paramValue ''uint32_t'' 4096) (assertionForArg immUk12 ''uk12'')
   \<and> \<not> assertionHolds (\<lambda>x. paramValue ''uint32_t'' (- 1)) (assertionForArg immUk12 ''uk12'')"
proof -
  have ws: "TotalWidth immSk12 = 12" "TotalWidth immUk12 = 12"
    by (simp_all add: TotalWidth_def immSk12_def immUk12_def)
  have ks: "Kind immSk12 = ArgKindSignedImm" "Kind immUk12 = ArgKindUnsignedImm"
    by (simp_all add: immSk12_def immUk12_def)
  have h1: "1 \<le> TotalWidth immSk12" "TotalWidth immSk12 \<le> 31"
    "1 \<le> TotalWidth immUk12" "TotalWidth immUk12 \<le> 31"
    by (simp_all add: ws)
  have rendered: "renderAssertion (assertionForArg immSk12 ''sk12'') = ''sk12 >= -0x800 && sk12 <= 0x7ff''"
    "renderAssertion (assertionForArg immUk12 ''uk12'') = ''uk12 <= 0xfff''"
    by (simp_all add: assertionForArg_def ks ws hex_def formatUint.simps digitChar_def)
  have m1: "uint (- 1 :: 32 word) = 4294967295"
    by (simp add: unsigned_minus_1_eq_mask mask_eq_exp_minus_1)
  note s = validator_bounds [OF h1(1) h1(2), THEN conjunct1, rule_format, OF ks(1)]
  note u = validator_bounds [OF h1(3) h1(4), THEN conjunct2, THEN conjunct1, rule_format, OF ks(2)]
  show ?thesis
    using s [of "\<lambda>x. - 2048" "''sk12''"] s [of "\<lambda>x. 2047" "''sk12''"]
      s [of "\<lambda>x. - 2049" "''sk12''"] s [of "\<lambda>x. 2048" "''sk12''"]
      u [of "\<lambda>x. 0" "''uk12''"] u [of "\<lambda>x. 4095" "''uk12''"]
      u [of "\<lambda>x. 4096" "''uk12''"] u [of "\<lambda>x. - 1" "''uk12''"]
    by (simp add: ws rendered m1)
qed

lemma arg_fields:
  "Kind regD = ArgKindIntReg" "Slots regD = [\<lparr> Offset = 0, Width = 5 \<rparr>]"
  "Kind regJ = ArgKindIntReg" "Slots regJ = [\<lparr> Offset = 5, Width = 5 \<rparr>]"
  "Kind regK = ArgKindIntReg" "Slots regK = [\<lparr> Offset = 10, Width = 5 \<rparr>]"
  "Kind immSk12 = ArgKindSignedImm" "Slots immSk12 = [\<lparr> Offset = 10, Width = 12 \<rparr>]"
  "Kind immUk12 = ArgKindUnsignedImm" "Slots immUk12 = [\<lparr> Offset = 10, Width = 12 \<rparr>]"
  "Kind immSd5k16 = ArgKindSignedImm"
  "Slots immSd5k16 = [\<lparr> Offset = 0, Width = 5 \<rparr>, \<lparr> Offset = 10, Width = 16 \<rparr>]"
  by (simp_all add: regD_def regJ_def regK_def immSk12_def immUk12_def immSd5k16_def)

lemma fieldNames_DJSk12: "fieldNamesForArgs [regD, regJ, immSk12] = Inr [''rd'', ''rj'', ''imm1'']"
  by (simp add: fieldNamesForArgs_def arg_fields IsImm_def
      insnFieldNameForRegArg_def slot_defs itoa_def formatUint.simps digitChar_def)

lemma sc_DJSk12: "slotCombinationForFmt fmtDJSk12 = Inr ''DJK''"
  by (simp add: slotCombinationForFmt_def slotOffsets_def fmtDJSk12_def regD_def regJ_def
      immSk12_def slot_defs)

lemma args_DJSk12: "Args fmtDJSk12 = [regD, regJ, immSk12]"
  by (simp add: fmtDJSk12_def)

lemma lower_names:
  "ToLower ''D'' = ''d''" "ToLower ''J'' = ''j''" "ToLower ''Sk12'' = ''sk12''"
  "ToLower ''DJK'' = ''djk''"
  by (simp_all add: ToLower_def toLowerChar_def)

lemma bigEncoderCase_DJSk12:
  "bigEncoderCase sampleExternals fmtDJSk12
     = Inr ([''rd'', ''rj'', ''imm1''], ''DJK'',
            [SlotExpr ''d'' 0 None, SlotExpr ''j'' 0 None, SlotExpr ''sk12'' 0 None])"
  by (simp add: bigEncoderCase_def fieldNames_DJSk12 sc_DJSk12 args_DJSk12 sampleExternals_def
      sample_names lower_names argSlotExprs_insndata_def slotExprsMap_def
      arg_fields slot_defs)

lemma fmtEncoderCall_DJSk12:
  "fmtEncoderCall sampleExternals fmtDJSk12
     = Inr (''DJK'', [SlotExpr ''d'' 0 None, SlotExpr ''j'' 0 None, SlotExpr ''sk12'' 0 (Some 0xfff)])"
  by (simp add: fmtEncoderCall_def fieldDescsForArgs_def insnFieldNameForRegArg_qemu_def
      sc_DJSk12 args_DJSk12 sampleExternals_def
      sample_names lower_names argSlotExprs_qemu_def slotExprsMap_def TotalWidth_def
      arg_fields slot_defs)

lemma encoderStmts_DJSk12:
  "encoderStmts sampleExternals fmtDJSk12
     = [OrShifted ''d'' 0, OrShifted ''j'' 5, OrShifted ''sk12'' 10]"
  by (simp add: encoderStmts_def args_DJSk12 sampleExternals_def sample_names lower_names
      argStmts_def arg_fields)

text \<open>
  C1. The encoders of geninsndata and geninstformats pass a signed immediate with one
  slot unmasked. With \<^verbatim>\<open>addi.w\<close> (opcode \<open>0x02800000\<close>, format \<^verbatim>\<open>DJSk12\<close>), \<open>d = 1\<close>,
  \<open>j = 2\<close> and the immediate \<open>-1\<close>, held as the \<^verbatim>\<open>uint32\<close> \<open>0xFFFFFFFF\<close>, both return
  \<open>0xFFFFFC41\<close>: the bits 22 to 31, which hold the opcode, are overwritten. The QEMU
  encoder, which masks (\<^verbatim>\<open>sk12 & 0xfff\<close>), accepts the same values and returns
  \<open>0x02BFFC41\<close>.
\<close>

theorem signed_imm_unmasked:
  "runBigEncoderCase sampleExternals fmtDJSk12 0x02800000 envMinusOne = Inr 0xFFFFFC41
   \<and> runEncoderForFormat sampleExternals fmtDJSk12 0x02800000 envMinusOne = 0xFFFFFC41
   \<and> fmtEncoderAccepts sampleExternals fmtDJSk12 envMinusOne
   \<and> runFmtEncoderFn sampleExternals fmtDJSk12 0x02800000 envMinusOne = Inr 0x02BFFC41"
proof (intro conjI)
  show "runBigEncoderCase sampleExternals fmtDJSk12 0x02800000 envMinusOne = Inr 0xFFFFFC41"
    by (simp add: runBigEncoderCase_def bigEncoderCase_DJSk12 args_DJSk12 slotEncoderFn_def
        lower_names slot_defs envMinusOne_def)
  show "runEncoderForFormat sampleExternals fmtDJSk12 0x02800000 envMinusOne = 0xFFFFFC41"
    by (simp add: runEncoderForFormat_def encoderStmts_DJSk12 envMinusOne_def)
  show "runFmtEncoderFn sampleExternals fmtDJSk12 0x02800000 envMinusOne = Inr 0x02BFFC41"
    by (simp add: runFmtEncoderFn_def fmtEncoderCall_DJSk12 slotEncoderFn_def
        lower_names slot_defs envMinusOne_def)
  show "fmtEncoderAccepts sampleExternals fmtDJSk12 envMinusOne"
    by (simp add: fmtEncoderAccepts_def fmtEncoderAsserts_args args_DJSk12 sampleExternals_def
        sample_names lower_names assertionForArg_def TotalWidth_def arg_fields
        signedParams_def fieldDescsForArgs_def insnFieldNameForRegArg_qemu_def
        paramValue_def envMinusOne_def)
qed

section \<open>Properties of the validators\<close>

lemma fold_emit: "fold (\<lambda>x. emit (g x)) xs ectx = ectx @ concat (map g xs)"
  by (induction xs arbitrary: ectx) (simp_all add: emit_def)

lemma fieldNamesForArgs_from_length:
  "fieldNamesForArgs_from immIdx args = Inr names \<Longrightarrow> length names = length args"
proof (induction args arbitrary: immIdx names)
  case Nil
  then show ?case by simp
next
  case (Cons a args)
  then show ?case
    by (auto split: if_splits sum.splits)
qed

lemma validatorCalls_insndata_args:
  assumes "validatorCalls_insndata f = Inr calls"
  shows "length calls = length (Args f)"
    and "\<forall>i < length calls. \<exists>p. calls ! i = wantCallForArg (Args f ! i) p"
proof -
  from assms obtain names where n: "fieldNamesForArgs (Args f) = Inr names"
    and c: "calls = map (\<lambda>(a, n). wantCallForArg a (''insn.'' @ n)) (zip (Args f) names)"
    by (auto simp: validatorCalls_insndata_def split: sum.splits)
  from n have l: "length names = length (Args f)"
    by (simp add: fieldNamesForArgs_def fieldNamesForArgs_from_length)
  show "length calls = length (Args f)" using c l by simp
  show "\<forall>i < length calls. \<exists>p. calls ! i = wantCallForArg (Args f ! i) p"
    using c l by auto
qed

lemma emitCheck_text: "emitCheck call ectx = ectx @ checkStmt call"
  by (simp add: emitCheck_def emit_def checkStmt_def)

lemma fold_emitCheck:
  "fold (\<lambda>c. emitCheck (r c)) calls ectx = ectx @ concat (map (\<lambda>c. checkStmt (r c)) calls)"
  by (induction calls arbitrary: ectx) (simp_all add: emitCheck_text)

lemma emitValidatorForFormat_insndata_text:
  assumes "validatorCalls_insndata f = Inr calls"
  shows "emitValidatorForFormat_insndata X f ectx
           = Inr (ectx @ ''func validate'' @ FormatCanonicalRepr X f @ ''(insn *instruction) error {'' @ nl
                  @ concat (map (\<lambda>c. checkStmt (renderWantCall_insndata c)) calls)
                  @ tab @ ''return nil'' @ nl @ ''}'' @ nl @ nl)"
  using assms by (simp add: emitValidatorForFormat_insndata_def fold_emitCheck emit_def)

lemma emitParams_instformats_text:
  "\<exists>params. \<forall>ectx. emitParams_instformats i ps ectx = ectx @ params"
proof (induction ps arbitrary: i)
  case Nil
  show ?case by (rule exI [of _ "[]"]) simp
next
  case (Cons p ps)
  from Cons [of "Suc i"] obtain t where t: "\<forall>ectx. emitParams_instformats (Suc i) ps ectx = ectx @ t"
    by blast
  show ?case
    by (rule exI [of _ "((if i > 0 then '', '' else '''') @ p @ '' uint32'') @ t"])
       (simp add: t emit_def)
qed

lemma emitValidatorForFormat_instformats_text:
  "\<exists>params. emitValidatorForFormat_instformats X f ectx
     = ectx @ ''func validate'' @ FormatCanonicalRepr X f @ ''('' @ params @ '') error {'' @ nl
         @ concat (map (\<lambda>c. checkStmt (renderWantCall_instformats c)) (validatorCalls_instformats X f))
         @ tab @ ''return nil'' @ nl @ ''}'' @ nl @ nl"
proof -
  obtain t where t: "\<forall>ectx. emitParams_instformats 0
      (map (\<lambda>a. ToLower (ArgCanonicalRepr X a)) (Args f)) ectx = ectx @ t"
    using emitParams_instformats_text by blast
  show ?thesis
    by (rule exI [of _ t])
       (simp add: emitValidatorForFormat_instformats_def Let_def t fold_emitCheck emit_def)
qed

lemma runValidator_None:
  "runValidator want calls = None \<longleftrightarrow> (\<forall>c \<in> set calls. want c = None)"
  by (induction calls) (auto split: option.splits)

lemma runValidator_first:
  "(\<forall>c' \<in> set pre. want c' = None) \<Longrightarrow> want c = Some err \<Longrightarrow>
     runValidator want (pre @ c # post) = Some err"
  by (induction pre) simp_all

lemma runValidator_Some:
  "runValidator want calls = Some err \<Longrightarrow>
     \<exists>pre c post. calls = pre @ c # post \<and> (\<forall>c' \<in> set pre. want c' = None) \<and> want c = Some err"
proof (induction calls)
  case Nil
  then show ?case by simp
next
  case (Cons c calls)
  show ?case
  proof (cases "want c")
    case None
    with Cons obtain pre c' post where
      "calls = pre @ c' # post" "\<forall>x \<in> set pre. want x = None" "want c' = Some err"
      by auto
    then have "c # calls = (c # pre) @ c' # post \<and> (\<forall>x \<in> set (c # pre). want x = None)
                 \<and> want c' = Some err"
      using None by simp
    then show ?thesis by blast
  next
    case (Some e)
    with Cons.prems have "want c = Some err" by simp
    then have "c # calls = [] @ c # calls \<and> (\<forall>x \<in> set []. want x = None) \<and> want c = Some err"
      by simp
    then show ?thesis by blast
  qed
qed

text \<open>
  C7. The validator of a format has one statement per argument, in the order of the
  arguments, each calling the check of that argument's kind. Run on an instruction, it
  returns \<^verbatim>\<open>nil\<close> iff every call does, and otherwise the error of the first call that
  fails, whatever the calls after it would return.
\<close>

theorem validator_first_failure:
  "(validatorCalls_insndata f = Inr calls \<longrightarrow>
      length calls = length (Args f)
    \<and> (\<forall>i < length calls. \<exists>p. calls ! i = wantCallForArg (Args f ! i) p)
    \<and> emitValidatorForFormat_insndata X f ectx
        = Inr (ectx @ ''func validate'' @ FormatCanonicalRepr X f @ ''(insn *instruction) error {'' @ nl
               @ concat (map (\<lambda>c. checkStmt (renderWantCall_insndata c)) calls)
               @ tab @ ''return nil'' @ nl @ ''}'' @ nl @ nl))
   \<and> validatorCalls_instformats X f
       = map (\<lambda>a. wantCallForArg a (ToLower (ArgCanonicalRepr X a))) (Args f)
   \<and> (\<exists>params. emitValidatorForFormat_instformats X f ectx
        = ectx @ ''func validate'' @ FormatCanonicalRepr X f @ ''('' @ params @ '') error {'' @ nl
            @ concat (map (\<lambda>c. checkStmt (renderWantCall_instformats c))
                        (validatorCalls_instformats X f))
            @ tab @ ''return nil'' @ nl @ ''}'' @ nl @ nl)
   \<and> (runValidator want cs = None \<longleftrightarrow> (\<forall>c \<in> set cs. want c = None))
   \<and> ((\<forall>c' \<in> set pre. want c' = None) \<and> want c = Some err \<longrightarrow>
        runValidator want (pre @ c # post) = Some err)
   \<and> (runValidator want cs = Some err \<longrightarrow>
        (\<exists>pre c post. cs = pre @ c # post \<and> (\<forall>c' \<in> set pre. want c' = None)
           \<and> want c = Some err))"
proof (intro conjI impI)
  assume a: "validatorCalls_insndata f = Inr calls"
  show "length calls = length (Args f)"
    by (rule validatorCalls_insndata_args(1) [OF a])
  show "\<forall>i < length calls. \<exists>p. calls ! i = wantCallForArg (Args f ! i) p"
    by (rule validatorCalls_insndata_args(2) [OF a])
  show "emitValidatorForFormat_insndata X f ectx
        = Inr (ectx @ ''func validate'' @ FormatCanonicalRepr X f @ ''(insn *instruction) error {'' @ nl
               @ concat (map (\<lambda>c. checkStmt (renderWantCall_insndata c)) calls)
               @ tab @ ''return nil'' @ nl @ ''}'' @ nl @ nl)"
    using emitValidatorForFormat_insndata_text [OF a, of X ectx] .
next
  show "validatorCalls_instformats X f
       = map (\<lambda>a. wantCallForArg a (ToLower (ArgCanonicalRepr X a))) (Args f)"
    by (simp add: validatorCalls_instformats_def)
  show "\<exists>params. emitValidatorForFormat_instformats X f ectx
        = ectx @ ''func validate'' @ FormatCanonicalRepr X f @ ''('' @ params @ '') error {'' @ nl
            @ concat (map (\<lambda>c. checkStmt (renderWantCall_instformats c))
                        (validatorCalls_instformats X f))
            @ tab @ ''return nil'' @ nl @ ''}'' @ nl @ nl"
    using emitValidatorForFormat_instformats_text [of X f ectx] .
  show "runValidator want cs = None \<longleftrightarrow> (\<forall>c \<in> set cs. want c = None)"
    by (rule runValidator_None)
next
  assume "(\<forall>c' \<in> set pre. want c' = None) \<and> want c = Some err"
  then have "\<forall>c' \<in> set pre. want c' = None" and "want c = Some err"
    by simp_all
  then show "runValidator want (pre @ c # post) = Some err"
    by (rule runValidator_first)
next
  assume "runValidator want cs = Some err"
  then show "\<exists>pre c post. cs = pre @ c # post \<and> (\<forall>c' \<in> set pre. want c' = None)
           \<and> want c = Some err"
    by (rule runValidator_Some)
qed

theorem validator_first_failure_witness:
  "validatorCalls_insndata fmtDJSk12
     = Inr [WantIntReg ''insn.rd'', WantIntReg ''insn.rj'', WantSignedImm ''insn.imm1'' 12]
   \<and> length [WantIntReg ''insn.rd'', WantIntReg ''insn.rj'', WantSignedImm ''insn.imm1'' 12]
       = length (Args fmtDJSk12)
   \<and> wantSample (WantIntReg ''insn.rd'') = None
   \<and> wantSample (WantIntReg ''insn.rj'') = Some ''rj is not an integer register''
   \<and> wantSample (WantSignedImm ''insn.imm1'' 12) = Some ''imm1 is out of range''
   \<and> runValidator wantSample
        ([WantIntReg ''insn.rd''] @ WantIntReg ''insn.rj'' # [WantSignedImm ''insn.imm1'' 12])
       = Some ''rj is not an integer register''"
proof -
  have c: "validatorCalls_insndata fmtDJSk12
     = Inr [WantIntReg ''insn.rd'', WantIntReg ''insn.rj'', WantSignedImm ''insn.imm1'' 12]"
    by (simp add: validatorCalls_insndata_def args_DJSk12 fieldNames_DJSk12 wantCallForArg_def
        arg_fields TotalWidth_def)
  have w: "wantSample (WantIntReg ''insn.rd'') = None"
    "wantSample (WantIntReg ''insn.rj'') = Some ''rj is not an integer register''"
    "wantSample (WantSignedImm ''insn.imm1'' 12) = Some ''imm1 is out of range''"
    by (simp_all add: wantSample_def)
  have p: "(\<forall>c' \<in> set [WantIntReg ''insn.rd'']. wantSample c' = None)
             \<and> wantSample (WantIntReg ''insn.rj'') = Some ''rj is not an integer register''"
    by (simp add: w)
  note t = validator_first_failure [of fmtDJSk12
      "[WantIntReg ''insn.rd'', WantIntReg ''insn.rj'', WantSignedImm ''insn.imm1'' 12]"
      sampleExternals "[]" wantSample "[]" "[WantIntReg ''insn.rd'']" "WantIntReg ''insn.rj''"
      "''rj is not an integer register''" "[WantSignedImm ''insn.imm1'' 12]"]
  note l = t [THEN conjunct1, rule_format, OF c, THEN conjunct1]
  note r = t [THEN conjunct2, THEN conjunct2, THEN conjunct2, THEN conjunct2, THEN conjunct1,
      rule_format, OF p]
  show ?thesis
    by (intro conjI) (rule c l w r)+
qed

section \<open>The table of encodings\<close>

lemma emitInsnEncodings_text:
  "emitInsnEncodings X descs ectx
     = ectx @ ''type encoding struct {'' @ nl @ tab @ ''bits uint32'' @ nl
         @ tab @ ''fmt  insnFormat'' @ nl @ ''}'' @ nl @ nl
         @ ''var encodings = [ALAST & obj.AMask]encoding{'' @ nl
         @ concat (map (encodingLine X) descs) @ ''}'' @ nl"
  by (simp add: emitInsnEncodings_def fold_emit emit_def)

lemma names_DJK: "sampleFormatRepr fmtDJK = ''DJK''"
  by (simp add: sampleFormatRepr_def fmtDJK_def sample_names)

lemma replicate_2: "replicate 2 x = [x, x]"
  by (simp add: numeral_2_eq_2)

lemma line_add_w:
  "encodingLine sampleExternals insn_add_w
     = tab @ ''AADDW & obj.AMask: {bits: 0x00100000, fmt: insnFormatDJK},'' @ nl"
  "encodingLine sampleExternals insn_add_w_again
     = tab @ ''AADDW & obj.AMask: {bits: 0x00108000, fmt: insnFormatDJK},'' @ nl"
  by (simp_all add: encodingLine_def insn_add_w_def insn_add_w_again_def sampleExternals_def
      names_DJK goOpcodeNameForInsn_def ReplaceAll_def ToUpper_def toUpperChar_def hex08_def
      hex_def formatUint.simps digitChar_def replicate_2)

lemma gf: "gatherFormats sampleExternals id [insn_add_w, insn_add_w_again] = [fmtDJK]"
  by (simp add: gatherFormats_def formatsSet_of_def formatsSet_insert_def sampleExternals_def
      insn_add_w_def insn_add_w_again_def names_DJK)

lemma sc_DJK: "slotCombinationForFmt fmtDJK = Inr ''DJK''"
  by (simp add: slotCombinationForFmt_def slotOffsets_def fmtDJK_def arg_fields slot_defs)

lemma args_DJK: "Args fmtDJK = [regD, regJ, regK]"
  by (simp add: fmtDJK_def)

lemma gsc: "gatherDistinctSlotCombinations id [fmtDJK] = Inr [''DJK'']"
  by (simp add: gatherDistinctSlotCombinations_def sc_DJK args_DJK)

lemma fieldNames_DJK: "fieldNamesForArgs [regD, regJ, regK] = Inr [''rd'', ''rj'', ''rk'']"
  by (simp add: fieldNamesForArgs_def arg_fields IsImm_def insnFieldNameForRegArg_def slot_defs)

lemma calls_DJK: "validatorCalls_insndata fmtDJK
   = Inr [WantIntReg ''insn.rd'', WantIntReg ''insn.rj'', WantIntReg ''insn.rk'']"
  by (simp add: validatorCalls_insndata_def args_DJK fieldNames_DJK wantCallForArg_def arg_fields)

lemma val_DJK: "\<exists>t. \<forall>ectx. emitValidators_insndata sampleExternals [fmtDJK] ectx = Inr (ectx @ t)"
  by (simp add: emitValidatorForFormat_insndata_text [OF calls_DJK])

lemma lower_djk: "ToLower ''DJK'' = ''djk''"
  by (simp add: ToLower_def toLowerChar_def)

lemma slotenc_DJK: "\<exists>t. \<forall>ectx. emitSlotEncoders_insndata [''DJK''] ectx = Inr (ectx @ t)"
  by (simp add: emitSlotEncoderFn_insndata_def lower_djk slot_defs emit_def)

lemma big_DJK: "\<exists>t. \<forall>ectx. emitBigEncoderFn sampleExternals [fmtDJK] ectx = Inr (ectx @ t)"
  by (simp add: emitBigEncoderFn_def emitBigEncoderCase_def bigEncoderCase_def args_DJK
      fieldNames_DJK sc_DJK sampleExternals_def sample_names lower_names
      argSlotExprs_insndata_def slotExprsMap_def arg_fields slot_defs emit_def
      ToLower_def toLowerChar_def)


lemma sorted_sample:
  "sortSliceFormats sampleExternals [fmtDJK] = [fmtDJK]"
  "formatSource sampleExternals = Inr"
  by (simp_all add: sampleExternals_def)

lemma main_insndata_duplicate_mnemonic:
  "\<exists>out. main_insndata sampleExternals id id [insn_add_w, insn_add_w_again] = Inr out"
proof -
  obtain tv where tv: "\<And>ectx. emitValidators_insndata sampleExternals [fmtDJK] ectx = Inr (ectx @ tv)"
    using val_DJK by blast
  obtain ts where ts: "\<And>ectx. emitSlotEncoders_insndata [''DJK''] ectx = Inr (ectx @ ts)"
    using slotenc_DJK by blast
  obtain tb where tb: "\<And>ectx. emitBigEncoderFn sampleExternals [fmtDJK] ectx = Inr (ectx @ tb)"
    using big_DJK by blast
  show ?thesis
    unfolding main_insndata_def Let_def gf gsc sorted_sample
    by (simp only: sum.case tv ts tb) blast
qed

text \<open>
  C2 (as amended). The table of encodings is built without any check of the mnemonics:
  \<^verbatim>\<open>emitInsnEncodings\<close> always returns, and what it appends is the fixed opening, one
  entry line per record in the order of the records, and the closing brace. Two records
  with the same mnemonic therefore yield two entries under the same opcode name.
\<close>

theorem encodings_table_one_line_per_record:
  "emitInsnEncodings X descs ectx
     = ectx @ ''type encoding struct {'' @ nl @ tab @ ''bits uint32'' @ nl
         @ tab @ ''fmt  insnFormat'' @ nl @ ''}'' @ nl @ nl
         @ ''var encodings = [ALAST & obj.AMask]encoding{'' @ nl
         @ concat (map (\<lambda>d. tab @ goOpcodeNameForInsn (Mnemonic d) @ '' & obj.AMask: {bits: 0x''
                            @ hex08 (Word d) @ '', fmt: '' @ ''insnFormat''
                            @ FormatCanonicalRepr X (Format d) @ ''},'' @ nl) descs)
         @ ''}'' @ nl"
proof -
  have "encodingLine X = (\<lambda>d. tab @ goOpcodeNameForInsn (Mnemonic d) @ '' & obj.AMask: {bits: 0x''
                            @ hex08 (Word d) @ '', fmt: '' @ ''insnFormat''
                            @ FormatCanonicalRepr X (Format d) @ ''},'' @ nl)"
    by (rule ext) (simp add: encodingLine_def)
  then show ?thesis using emitInsnEncodings_text [of X descs ectx] by simp
qed

theorem encodings_table_duplicate_counterexample:
  "Mnemonic insn_add_w = Mnemonic insn_add_w_again
   \<and> emitInsnEncodings sampleExternals [insn_add_w, insn_add_w_again] []
       = ''type encoding struct {'' @ nl @ tab @ ''bits uint32'' @ nl
         @ tab @ ''fmt  insnFormat'' @ nl @ ''}'' @ nl @ nl
         @ ''var encodings = [ALAST & obj.AMask]encoding{'' @ nl
         @ tab @ ''AADDW & obj.AMask: {bits: 0x00100000, fmt: insnFormatDJK},'' @ nl
         @ tab @ ''AADDW & obj.AMask: {bits: 0x00108000, fmt: insnFormatDJK},'' @ nl
         @ ''}'' @ nl
   \<and> (\<exists>out. main_insndata sampleExternals id id [insn_add_w, insn_add_w_again] = Inr out)"
proof (intro conjI)
  show "Mnemonic insn_add_w = Mnemonic insn_add_w_again"
    by (simp add: insn_add_w_def insn_add_w_again_def)
  show "emitInsnEncodings sampleExternals [insn_add_w, insn_add_w_again] []
       = ''type encoding struct {'' @ nl @ tab @ ''bits uint32'' @ nl
         @ tab @ ''fmt  insnFormat'' @ nl @ ''}'' @ nl @ nl
         @ ''var encodings = [ALAST & obj.AMask]encoding{'' @ nl
         @ tab @ ''AADDW & obj.AMask: {bits: 0x00100000, fmt: insnFormatDJK},'' @ nl
         @ tab @ ''AADDW & obj.AMask: {bits: 0x00108000, fmt: insnFormatDJK},'' @ nl
         @ ''}'' @ nl"
    by (simp add: emitInsnEncodings_text line_add_w)
  show "\<exists>out. main_insndata sampleExternals id id [insn_add_w, insn_add_w_again] = Inr out"
    by (rule main_insndata_duplicate_mnemonic)
qed

section \<open>The attribute filter of the QEMU generator\<close>






section \<open>Determinism\<close>

lemma gatherFormats_mset:
  assumes "range_order rng1" and "range_order rng2"
  shows "mset (gatherFormats X rng1 descs) = mset (gatherFormats X rng2 descs)"
proof -
  have "mset (rng1 (formatsSet_of X descs)) = mset (rng2 (formatsSet_of X descs))"
    using assms by (simp add: range_order_def)
  then show ?thesis unfolding gatherFormats_def by (metis mset_map)
qed

lemma sorts_by_unique:
  assumes s: "sorts_by key srt" and m: "mset xs = mset ys" and d: "distinct (map key xs)"
  shows "srt xs = srt ys"
proof -
  have ma: "mset (srt xs) = mset xs" and mb: "mset (srt ys) = mset xs"
    and sa: "sorted (map key (srt xs))" and sb: "sorted (map key (srt ys))"
    using s m by (simp_all add: sorts_by_def)
  have ka: "mset (map key (srt xs)) = mset (map key xs)" using ma by (metis mset_map)
  have kb: "mset (map key (srt ys)) = mset (map key xs)" using mb by (metis mset_map)
  have "sort (map key xs) = map key (srt xs)" using ka sa by (rule properties_for_sort)
  moreover have "sort (map key xs) = map key (srt ys)" using kb sb by (rule properties_for_sort)
  ultimately have eq: "map key (srt xs) = map key (srt ys)" by simp
  have "set (srt xs) = set xs" "set (srt ys) = set xs"
    using ma mb by (metis mset_eq_setD)+
  moreover have "inj_on key (set xs)" using d by (simp add: distinct_map)
  ultimately have "inj_on key (set (srt xs) \<union> set (srt ys))" by simp
  then show ?thesis using eq by (simp add: inj_on_map_eq_map)
qed

lemma sorted_formats_unique:
  assumes "range_order rng1" and "range_order rng2"
    and "sorts_by (FormatCanonicalRepr X) (sortSliceFormats X)"
  shows "sortSliceFormats X (gatherFormats X rng1 descs)
           = sortSliceFormats X (gatherFormats X rng2 descs)"
  using assms(3) gatherFormats_mset [OF assms(1,2)] gatherFormats_distinct [OF assms(1)]
  by (rule sorts_by_unique)

lemma slot_combinations_unique:
  assumes "range_order rngF1" and "range_order rngF2"
    and "range_order rngS1" and "range_order rngS2"
  shows "gatherDistinctSlotCombinations rngS1 (gatherFormats X rngF1 descs)
           = gatherDistinctSlotCombinations rngS2 (gatherFormats X rngF2 descs)"
proof -
  have "set (gatherFormats X rngF1 descs) = set (gatherFormats X rngF2 descs)"
    using gatherFormats_mset [OF assms(1,2)] by (rule mset_eq_setD)
  with assms(3,4) show ?thesis by (rule gatherDistinctSlotCombinations_set_cong)
qed

text \<open>
  C8. The output does not depend on the order in which the maps are ranged over. For
  any two runs on the same records, each with range orders of its own for the map of
  formats and the set of slot combinations: the sorted list of formats is the same (the
  canonical names are the keys of the map, so no two formats tie), the sorted list of
  combinations is the same, and so are the bytes written by either generator, or the
  panic that ends it.
\<close>

theorem generation_deterministic:
  assumes "range_order rngFormats1" and "range_order rngFormats2"
    and "range_order rngScs1" and "range_order rngScs2"
    and "sorts_by (FormatCanonicalRepr X) (sortSliceFormats X)"
  shows "sortSliceFormats X (gatherFormats X rngFormats1 descs)
           = sortSliceFormats X (gatherFormats X rngFormats2 descs)
       \<and> gatherDistinctSlotCombinations rngScs1 (gatherFormats X rngFormats1 descs)
           = gatherDistinctSlotCombinations rngScs2 (gatherFormats X rngFormats2 descs)
       \<and> main_insndata X rngFormats1 rngScs1 descs = main_insndata X rngFormats2 rngScs2 descs
       \<and> main_qemu X rngFormats1 rngScs1 descs = main_qemu X rngFormats2 rngScs2 descs"
proof (intro conjI)
  show f: "sortSliceFormats X (gatherFormats X rngFormats1 descs)
           = sortSliceFormats X (gatherFormats X rngFormats2 descs)"
    for descs
    by (rule sorted_formats_unique [OF assms(1,2,5)])
  show c: "gatherDistinctSlotCombinations rngScs1 (gatherFormats X rngFormats1 descs)
           = gatherDistinctSlotCombinations rngScs2 (gatherFormats X rngFormats2 descs)"
    for descs
    by (rule slot_combinations_unique [OF assms(1,2,3,4)])
  show "main_insndata X rngFormats1 rngScs1 descs = main_insndata X rngFormats2 rngScs2 descs"
    unfolding main_insndata_def Let_def by (simp only: f c)
  show "main_qemu X rngFormats1 rngScs1 descs = main_qemu X rngFormats2 rngScs2 descs"
    unfolding main_qemu_def Let_def by (simp only: f c)
qed

theorem generation_deterministic_witness:
  "range_order (rev :: (string \<times> InsnFormat) list \<Rightarrow> (string \<times> InsnFormat) list)
   \<and> range_order (id :: (string \<times> InsnFormat) list \<Rightarrow> (string \<times> InsnFormat) list)
   \<and> range_order (rev :: string list \<Rightarrow> string list)
   \<and> range_order (id :: string list \<Rightarrow> string list)
   \<and> sorts_by (FormatCanonicalRepr sampleExternals) (sortSliceFormats sampleExternals)
   \<and> main_insndata sampleExternals rev rev [insn_addi_w, insn_add_w, insn_add_w_again]
       = main_insndata sampleExternals id id [insn_addi_w, insn_add_w, insn_add_w_again]
   \<and> main_qemu sampleExternals rev rev [insn_addi_w, insn_add_w, insn_add_w_again]
       = main_qemu sampleExternals id id [insn_addi_w, insn_add_w, insn_add_w_again]"
proof -
  have r1: "range_order (rev :: (string \<times> InsnFormat) list \<Rightarrow> (string \<times> InsnFormat) list)"
    and r2: "range_order (id :: (string \<times> InsnFormat) list \<Rightarrow> (string \<times> InsnFormat) list)"
    and r3: "range_order (rev :: string list \<Rightarrow> string list)"
    and r4: "range_order (id :: string list \<Rightarrow> string list)"
    by (simp_all add: range_order_def)
  have s: "sorts_by (FormatCanonicalRepr sampleExternals) (sortSliceFormats sampleExternals)"
    by (simp add: sorts_by_def sampleExternals_def)
  note t = generation_deterministic [OF r1 r2 r3 r4 s,
      of "[insn_addi_w, insn_add_w, insn_add_w_again]"]
  show ?thesis
    by (intro conjI) (rule r1 r2 r3 r4 s t [THEN conjunct2, THEN conjunct2, THEN conjunct1]
        t [THEN conjunct2, THEN conjunct2, THEN conjunct2])+
qed

end
